theory Spec2Isabelle
  imports Main
begin

unbundle bit_operations_syntax

section \<open>Python values used by kitty/child.py\<close>

text \<open>
  Exceptions are values. Only the exception classes that the modelled functions
  can meet are listed; \<open>OSError\<close> stands for every failure of an operating-system
  call (process gone, unreadable entry, permission).
\<close>

datatype py_error =
  AssertionError | IndexError | ValueError | OSError | UnicodeDecodeError | UnboundLocalError

text \<open>The NUL character that ends a record of an environment block.\<close>

definition nul :: char where
  "nul = CHR 0x00"

text \<open>Index of the first occurrence of a character in a string.\<close>

fun index_of :: "char \<Rightarrow> string \<Rightarrow> nat option" where
  "index_of c [] = None"
| "index_of c (x # xs) = (if x = c then Some 0 else map_option Suc (index_of c xs))"

text \<open>
  \<^verbatim>\<open>s.find(c, start, stop)\<close> for a one-character \<^verbatim>\<open>c\<close> and non-negative
  bounds: the lowest index \<open>i\<close> with \<open>start \<le> i < min stop (len s)\<close> and \<open>s[i] = c\<close>,
  or \<open>-1\<close>.
\<close>

definition str_find :: "string \<Rightarrow> char \<Rightarrow> nat \<Rightarrow> nat \<Rightarrow> int" where
  "str_find s c start stop =
     (case index_of c (drop start (take stop s)) of
        None \<Rightarrow> - 1
      | Some i \<Rightarrow> int (start + i))"

text \<open>\<^verbatim>\<open>s[a:b]\<close> for non-negative bounds.\<close>

definition slice :: "'a list \<Rightarrow> nat \<Rightarrow> nat \<Rightarrow> 'a list" where
  "slice s a b = drop a (take b s)"

text \<open>
  A Python \<^verbatim>\<open>dict\<close> keeps its keys in insertion order; assigning to a key that
  is present replaces the value in place, assigning to a new key appends it.
\<close>

type_synonym ('k, 'v) dict = "('k \<times> 'v) list"

fun dict_set :: "'k \<Rightarrow> 'v \<Rightarrow> ('k, 'v) dict \<Rightarrow> ('k, 'v) dict" where
  "dict_set k v [] = [(k, v)]"
| "dict_set k v (p # ps) = (if fst p = k then (k, v) # ps else p # dict_set k v ps)"

definition dict_get :: "('k, 'v) dict \<Rightarrow> 'k \<Rightarrow> 'v option" where
  "dict_get d k = map_of d k"

section \<open>parse_environ_block (child.py, lines 119-139)\<close>

lemma index_of_less: "index_of c xs = Some i \<Longrightarrow> i < length xs"
  by (induction xs arbitrary: i) (auto split: if_splits)

lemma str_find_less: "str_find s c start stop < int (length s)"
proof (cases "index_of c (drop start (take stop s))")
  case None
  then show ?thesis by (simp add: str_find_def)
next
  case (Some i)
  from index_of_less [OF Some] have "start + i < length s" by simp
  with Some show ?thesis by (simp add: str_find_def)
qed

text \<open>
  \<^verbatim>\<open>find\<close> returns an index below \<^verbatim>\<open>len(data)\<close>, so \<^verbatim>\<open>len(data) - pos\<close> falls
  with each iteration of the loop that does not break.
\<close>

lemma parse_loop_decreases:
  assumes "next_pos = str_find data nul pos (length data)" and "\<not> next_pos \<le> int pos"
  shows "length data - (nat next_pos + 1) < length data - pos"
proof -
  from assms(1) have "next_pos < int (length data)" by (simp add: str_find_less)
  with assms(2) show ?thesis by simp
qed

text \<open>
  The \<^verbatim>\<open>while True\<close> loop, with the loop variables \<^verbatim>\<open>ret\<close> and \<^verbatim>\<open>pos\<close> as
  arguments. \<^verbatim>\<open>pos\<close> starts at 0 and only grows, so it is a natural number;
  the results of \<^verbatim>\<open>find\<close> are integers because they can be \<open>-1\<close>.
\<close>

function parse_loop :: "string \<Rightarrow> (string, string) dict \<Rightarrow> nat \<Rightarrow> (string, string) dict" where
  "parse_loop data ret pos =
     (let next_pos = str_find data nul pos (length data) in
      if next_pos \<le> int pos then ret
      else
        let equal_pos = str_find data (CHR ''='') pos (nat next_pos);
            ret' = (if equal_pos > int pos
                    then dict_set (slice data pos (nat equal_pos))
                           (slice data (nat equal_pos + 1) (nat next_pos)) ret
                    else ret)
        in parse_loop data ret' (nat next_pos + 1))"
  by pat_completeness auto

termination
proof (relation "measure (\<lambda>(data, ret, pos). length data - pos)")
  show "wf (measure (\<lambda>(data, ret, pos). length data - pos))" by simp
next
  fix data :: string and ret :: "(string, string) dict" and pos :: nat
    and next_pos equal_pos :: int and ret' :: "(string, string) dict"
  assume "next_pos = str_find data nul pos (length data)" and "\<not> next_pos \<le> int pos"
  from parse_loop_decreases [OF this]
  show "((data, ret', nat next_pos + 1), (data, ret, pos))
      \<in> measure (\<lambda>(data, ret, pos). length data - pos)"
    by simp
qed

declare parse_loop.simps [simp del]

definition parse_environ_block :: "string \<Rightarrow> (string, string) dict" where
  "parse_environ_block data = parse_loop data [] 0"

subsection \<open>The record structure of an environment block\<close>

text \<open>
  The block read as the sequence of its NUL-terminated records, used to state what
  the index-based loop computes. \<open>records\<close> lists every NUL-terminated record
  (an unterminated tail is not a record); \<open>leading_records\<close> keeps those before
  the first empty record; \<open>record_entry\<close> is the entry of one record: the text
  before its first \<open>=\<close> and the text after it, when there is an \<open>=\<close> and the text
  before it is not empty.
\<close>

function records :: "string \<Rightarrow> string list" where
  "records data =
     (case index_of nul data of
        None \<Rightarrow> []
      | Some n \<Rightarrow> take n data # records (drop (Suc n) data))"
  by pat_completeness auto

termination
  by (relation "measure length") (auto dest: index_of_less)

declare records.simps [simp del]

definition leading_records :: "string \<Rightarrow> string list" where
  "leading_records data = takeWhile (\<lambda>r. r \<noteq> []) (records data)"

definition record_entry :: "string \<Rightarrow> (string \<times> string) option" where
  "record_entry r =
     (if CHR ''='' \<in> set r \<and> takeWhile (\<lambda>c. c \<noteq> CHR ''='') r \<noteq> []
      then Some (takeWhile (\<lambda>c. c \<noteq> CHR ''='') r, tl (dropWhile (\<lambda>c. c \<noteq> CHR ''='') r))
      else None)"

definition apply_record :: "string \<Rightarrow> (string, string) dict \<Rightarrow> (string, string) dict" where
  "apply_record r d = (case record_entry r of None \<Rightarrow> d | Some (k, v) \<Rightarrow> dict_set k v d)"

text \<open>
  \<^verbatim>\<open>"".join(f"{k}={v}\0" for k, v in d.items())\<close>: the entries of a dict written
  back as an environment block, in the dict's order.
\<close>

definition serialize :: "(string, string) dict \<Rightarrow> string" where
  "serialize d = concat (map (\<lambda>(k, v). k @ ''='' @ v @ [nul]) d)"

text \<open>
  What every entry of a parsed block satisfies: the key is not empty and holds
  neither \<open>=\<close> nor NUL, the value holds no NUL; and a parsed dict has distinct keys.
\<close>

definition entry_ok :: "string \<times> string \<Rightarrow> bool" where
  "entry_ok e = (fst e \<noteq> [] \<and> CHR ''='' \<notin> set (fst e) \<and> nul \<notin> set (fst e) \<and> nul \<notin> set (snd e))"

definition dict_ok :: "(string, string) dict \<Rightarrow> bool" where
  "dict_ok d = (distinct (map fst d) \<and> list_all entry_ok d)"

section \<open>is_prewarmable (child.py, lines 191-200)\<close>

text \<open>\<^verbatim>\<open>os.path.basename\<close>: the text after the last slash.\<close>

definition basename :: "string \<Rightarrow> string" where
  "basename p = rev (takeWhile (\<lambda>c. c \<noteq> CHR ''/'') (rev p))"

text \<open>
  \<^verbatim>\<open>x in s\<close> on strings is the substring test; the empty string is a substring
  of every string.
\<close>

fun is_substring :: "string \<Rightarrow> string \<Rightarrow> bool" where
  "is_substring x [] = (x = [])"
| "is_substring x (c # cs) = (take (length x) (c # cs) = x \<or> is_substring x cs)"

text \<open>
  The function returns a bool or raises: \<^verbatim>\<open>argv[1][:1]\<close> of an empty
  \<^verbatim>\<open>argv[1]\<close> is the empty string, which passes the test \<^verbatim>\<open>not in '@+'\<close>, and
  \<^verbatim>\<open>argv[1][0]\<close> then raises \<^verbatim>\<open>IndexError\<close>.
\<close>

definition is_prewarmable :: "string list \<Rightarrow> py_error + bool" where
  "is_prewarmable argv =
     (if length argv < 3 \<or> basename (argv ! 0) \<noteq> ''kitty'' then Inr False
      else if \<not> is_substring (take 1 (argv ! 1)) ''@+'' then Inr False
      else if argv ! 1 = [] then Inl IndexError
      else if (argv ! 1) ! 0 = CHR ''@'' then Inr True
      else if argv ! 1 = ''+'' then Inr (argv ! 2 \<noteq> ''open'')
      else Inr (argv ! 1 \<noteq> ''+open''))"

section \<open>The runtime around a Child\<close>

text \<open>
  An environment value is a Python string object. \<^verbatim>\<open>DELETE_ENV_VAR\<close> (imported
  from \<^verbatim>\<open>kitty.options.utils\<close>) is one distinguished string object that the code
  recognises by identity (\<^verbatim>\<open>v is not DELETE_ENV_VAR\<close>), so it is a constructor of
  its own; every other string object is \<open>Str\<close> of its text, whatever the text. The
  text of the sentinel is not in \<^verbatim>\<open>child.py\<close>; it is the field
  \<open>delete_env_var_text\<close> of the runtime below. Two objects are equal in the sense
  of \<^verbatim>\<open>==\<close> when their texts are equal, so \<open>Str\<close> of the sentinel's text equals
  the sentinel and is not the sentinel.
\<close>

datatype env_value = Str string | DELETE_ENV_VAR

type_synonym environment = "string \<Rightarrow> env_value option"

text \<open>
  A key code or a control character of the terminal, as a Python value:
  \<^verbatim>\<open>termios.tcgetattr\<close> gives the control characters as \<^verbatim>\<open>bytes\<close> of length one
  (or as \<^verbatim>\<open>int\<close>), and \<^verbatim>\<open>==\<close> between an \<^verbatim>\<open>int\<close> and a \<^verbatim>\<open>bytes\<close> is false.
\<close>

datatype key_code = KeyInt int | KeyBytes "nat list"

datatype signal = SIGINT | SIGTSTP | SIGQUIT

text \<open>
  The part of \<^verbatim>\<open>termios.tcgetattr(fd)\<close> that \<^verbatim>\<open>send_signal_for_key\<close> reads:
  \<^verbatim>\<open>t[3]\<close> and three entries of \<^verbatim>\<open>t[-1]\<close>.
\<close>

record termios_attr =
  lflag :: int
  cc_VINTR :: key_code
  cc_VSUSP :: key_code
  cc_VQUIT :: key_code

text \<open>
  Everything outside \<^verbatim>\<open>child.py\<close> that its functions read or call: module
  constants, the options and the boss, and the operating system. A call that can
  raise returns \<open>py_error + result\<close>. The scan of the process table
  (\<^verbatim>\<open>process_group_map\<close>, in its macOS and its \<^verbatim>\<open>/proc\<close> form) is an
  operating-system query whose result is a field here; \<open>cached_map\<close> is the
  attribute that \<^verbatim>\<open>cached_process_data\<close> sets on it.
\<close>

record runtime =
  is_macos :: bool
  is_freebsd :: bool
  shell_path :: string
  kitty_base_dir :: string
  terminfo_dir :: string
  terminfo_dir_isdir :: bool
  ISIG :: int
  delete_env_var_text :: string
  opts_term :: env_value
  opts_shell_integration :: "string list"
  prewarm_socket_env_var :: string
  prewarm_worker_pid :: "py_error + int"
  os_getpid :: int
  default_env :: environment
  lc_ctype_before_python :: bool
  lc_ctype_set_by_user :: bool
  modify_shell_environ :: "environment \<Rightarrow> string list \<Rightarrow> environment \<times> string list"
  which :: "string \<Rightarrow> string option"
  os_openpty :: "py_error + int \<times> int"
  os_pipe :: "nat \<Rightarrow> py_error + int \<times> int"
  prewarm_attach :: "py_error + int \<times> int"
  spawn :: "py_error + int"
  realpath :: "string \<Rightarrow> py_error + string"
  native_cwd :: "int \<Rightarrow> py_error + string"
  native_cmdline :: "int \<Rightarrow> py_error + string list"
  native_environ :: "int \<Rightarrow> py_error + string"
  pwdx :: "int \<Rightarrow> py_error + int \<times> string"
  proc_read :: "string \<Rightarrow> py_error + string"
  process_group_map :: "py_error + (int \<Rightarrow> int list option)"
  cached_map :: "(int \<Rightarrow> int list option) option"
  tcgetpgrp :: "int \<Rightarrow> py_error + int"
  tcgetattr :: "int \<Rightarrow> py_error + termios_attr"
  open_tty :: "string \<Rightarrow> py_error + int"
  killpg :: "int \<Rightarrow> signal \<Rightarrow> py_error + unit"

text \<open>The text of a string object, which decides its truth value and \<^verbatim>\<open>==\<close>.\<close>

definition text_of :: "runtime \<Rightarrow> env_value \<Rightarrow> string" where
  "text_of rt v = (case v of Str s \<Rightarrow> s | DELETE_ENV_VAR \<Rightarrow> delete_env_var_text rt)"

section \<open>Process introspection (child.py, lines 30-143)\<close>

text \<open>\<^verbatim>\<open>str(pid)\<close> inside the f-strings that name \<^verbatim>\<open>/proc\<close> entries.\<close>

function str_of_nat :: "nat \<Rightarrow> string" where
  "str_of_nat n =
     (if n < 10 then [''0123456789'' ! n]
      else str_of_nat (n div 10) @ [''0123456789'' ! (n mod 10)])"
  by pat_completeness auto

termination
  by (relation "measure id") auto

declare str_of_nat.simps [simp del]

definition str_of_int :: "int \<Rightarrow> string" where
  "str_of_int i = (if i < 0 then CHR ''-'' # str_of_nat (nat (- i)) else str_of_nat (nat i))"

text \<open>\<^verbatim>\<open>s.split(c)\<close> for a one-character separator.\<close>

fun py_split :: "char \<Rightarrow> string \<Rightarrow> string list" where
  "py_split c [] = [[]]"
| "py_split c (x # xs) =
     (if x = c then [] # py_split c xs
      else (case py_split c xs of [] \<Rightarrow> [[x]] | w # ws \<Rightarrow> (x # w) # ws))"

text \<open>
  \<^verbatim>\<open>s.split()\<close>: the words between runs of white space. A character stands
  for the code point of its number, and the code points below 256 at which
  \<^verbatim>\<open>str.split\<close> splits are tab to carriage return, the separators \<^verbatim>\<open>\x1c\<close> to
  \<^verbatim>\<open>\x1f\<close>, the space, \<^verbatim>\<open>\x85\<close> and \<^verbatim>\<open>\xa0\<close>.
\<close>

definition is_space :: "char \<Rightarrow> bool" where
  "is_space c =
     (let n = (of_char c :: nat)
      in n = 32 \<or> (9 \<le> n \<and> n \<le> 13) \<or> (28 \<le> n \<and> n \<le> 31) \<or> n = 133 \<or> n = 160)"

fun split_ws_from :: "string \<Rightarrow> string \<Rightarrow> string list" where
  "split_ws_from cur [] = (if cur = [] then [] else [rev cur])"
| "split_ws_from cur (c # cs) =
     (if is_space c
      then (if cur = [] then split_ws_from [] cs else rev cur # split_ws_from [] cs)
      else split_ws_from (c # cur) cs)"

definition split_ws :: "string \<Rightarrow> string list" where
  "split_ws s = split_ws_from [] s"

text \<open>
  \<^verbatim>\<open>cwd_of_process\<close>, one definition per platform in the source. On macOS the
  native call can raise; on FreeBSD \<^verbatim>\<open>pwdx\<close> is run and a non-zero return code
  raises \<^verbatim>\<open>ValueError\<close>; on Linux the path \<^verbatim>\<open>/proc/<pid>/cwd\<close> goes through
  \<^verbatim>\<open>os.path.realpath\<close>. In its default, non-strict mode \<^verbatim>\<open>realpath\<close> does not
  raise for a path that does not exist: it returns the path resolved as far as
  possible, which for the entry of a process that has exited is the path itself.
  It can still raise, for a link that is there and cannot be read.
\<close>

definition cwd_of_process :: "runtime \<Rightarrow> int \<Rightarrow> py_error + string" where
  "cwd_of_process rt p =
     (if is_macos rt then
        (case native_cwd rt p of Inl e \<Rightarrow> Inl e | Inr d \<Rightarrow> realpath rt d)
      else if is_freebsd rt then
        (case pwdx rt p of
           Inl e \<Rightarrow> Inl e
         | Inr (returncode, out) \<Rightarrow>
             if returncode \<noteq> 0 then Inl ValueError
             else (case split_ws out of
                     a # ans # rest \<Rightarrow> realpath rt ans
                   | _ \<Rightarrow> Inl IndexError))
      else realpath rt (''/proc/'' @ str_of_int p @ ''/cwd''))"

definition cmdline_of_pid :: "runtime \<Rightarrow> int \<Rightarrow> py_error + string list" where
  "cmdline_of_pid rt p =
     (if is_macos rt then native_cmdline rt p
      else (case proc_read rt (''/proc/'' @ str_of_int p @ ''/cmdline'') of
              Inl e \<Rightarrow> Inl e
            | Inr raw \<Rightarrow> Inr (filter (\<lambda>s. s \<noteq> []) (py_split nul raw))))"

definition raw_environ_of_process :: "runtime \<Rightarrow> int \<Rightarrow> py_error + string" where
  "raw_environ_of_process rt p =
     (if is_macos rt then native_environ rt p
      else proc_read rt (''/proc/'' @ str_of_int p @ ''/environ''))"

definition environ_of_process :: "runtime \<Rightarrow> int \<Rightarrow> py_error + (string, string) dict" where
  "environ_of_process rt p =
     (case raw_environ_of_process rt p of
        Inl e \<Rightarrow> Inl e
      | Inr raw \<Rightarrow> Inr (parse_environ_block raw))"

definition processes_in_group :: "runtime \<Rightarrow> int \<Rightarrow> int list" where
  "processes_in_group rt grp =
     (let gmap = (case cached_map rt of
                    Some m \<Rightarrow> m
                  | None \<Rightarrow> (case process_group_map rt of Inl e \<Rightarrow> Map.empty | Inr m \<Rightarrow> m))
      in case gmap grp of None \<Rightarrow> [] | Some pids \<Rightarrow> pids)"

text \<open>
  \<^verbatim>\<open>cmdline_of_prewarmer\<close>: the command line of the pre-warm worker, or
  \<^verbatim>\<open>['']\<close> when anything raises.
\<close>

definition cmdline_of_prewarmer :: "runtime \<Rightarrow> string list" where
  "cmdline_of_prewarmer rt =
     (case prewarm_worker_pid rt of
        Inl e \<Rightarrow> [[]]
      | Inr wp \<Rightarrow> (case cmdline_of_pid rt wp of Inl e \<Rightarrow> [[]] | Inr ans \<Rightarrow> ans))"

section \<open>The Child class (child.py, lines 212-480)\<close>

text \<open>
  The attributes of a Child. An attribute that the class or \<^verbatim>\<open>__init__\<close> sets to
  \<^verbatim>\<open>None\<close>, or that only \<^verbatim>\<open>final_env\<close> or \<^verbatim>\<open>fork\<close> creates, is an option.
  \<open>stdin\<close> is the byte payload; \<open>is_clone_launch\<close> is the clone token, a string
  object that nothing checks, with an empty text for a launch that is no clone; \<open>prewarmed_child\<close> holds the
  \<^verbatim>\<open>child_process_pid\<close> and the \<^verbatim>\<open>child_id\<close> of the handle that the pre-warm
  attach returns.
\<close>

record child =
  child_fd :: "int option"
  pid :: "int option"
  forked :: bool
  is_prewarmed :: bool
  allow_remote_control :: bool
  is_clone_launch :: env_value
  argv :: "string list"
  cwd :: string
  stdin :: "string option"
  env :: environment
  unmodified_argv :: "string list option"
  final_exe :: "string option"
  final_argv0 :: "string option"
  prewarmed_child :: "(int \<times> int) option"
  terminal_ready_fd :: "int option"

text \<open>\<^verbatim>\<open>ProcessDesc\<close>, the dict that describes one foreground process.\<close>

record process_desc =
  desc_cwd :: "string option"
  desc_pid :: int
  desc_cmdline :: "string list option"

subsection \<open>Introspection accessors\<close>

definition child_cmdline_of_pid :: "runtime \<Rightarrow> child \<Rightarrow> int \<Rightarrow> string list" where
  "child_cmdline_of_pid rt c p =
     (let ans = (case cmdline_of_pid rt p of Inl e \<Rightarrow> [] | Inr a \<Rightarrow> a)
      in if Some p = pid c \<and> (ans = [] \<or> (is_prewarmed c \<and> ans = cmdline_of_prewarmer rt))
         then argv c else ans)"

definition process_desc_of :: "runtime \<Rightarrow> child \<Rightarrow> int \<Rightarrow> process_desc" where
  "process_desc_of rt c p =
     \<lparr>desc_cwd = (case cwd_of_process rt p of
                    Inl e \<Rightarrow> None
                  | Inr d \<Rightarrow> if d = [] then None else Some d),
      desc_pid = p,
      desc_cmdline = Some (child_cmdline_of_pid rt c p)\<rparr>"

definition foreground_processes :: "runtime \<Rightarrow> child \<Rightarrow> process_desc list" where
  "foreground_processes rt c =
     (case child_fd c of
        None \<Rightarrow> []
      | Some fd \<Rightarrow>
          (case tcgetpgrp rt fd of
             Inl e \<Rightarrow> []
           | Inr pgrp \<Rightarrow>
               map (process_desc_of rt c) (if pgrp \<ge> 0 then processes_in_group rt pgrp else [])))"

definition cmdline :: "runtime \<Rightarrow> child \<Rightarrow> string list" where
  "cmdline rt c =
     (case pid c of
        None \<Rightarrow> argv c
      | Some p \<Rightarrow>
          (let ans = child_cmdline_of_pid rt c p in if ans \<noteq> [] then ans else argv c))"

definition environ :: "runtime \<Rightarrow> child \<Rightarrow> (string, string) dict" where
  "environ rt c =
     (case pid c of
        None \<Rightarrow> []
      | Some p \<Rightarrow> (case environ_of_process rt p of Inl e \<Rightarrow> [] | Inr d \<Rightarrow> d))"

definition current_cwd :: "runtime \<Rightarrow> child \<Rightarrow> string option" where
  "current_cwd rt c =
     (case pid c of
        None \<Rightarrow> None
      | Some p \<Rightarrow> (case cwd_of_process rt p of Inl e \<Rightarrow> None | Inr d \<Rightarrow> Some d))"

text \<open>\<^verbatim>\<open>min\<close> and \<^verbatim>\<open>max\<close> of a list that the caller has found non-empty.\<close>

definition py_min :: "int list \<Rightarrow> int" where
  "py_min xs = fold min (tl xs) (hd xs)"

definition py_max :: "int list \<Rightarrow> int" where
  "py_max xs = fold max (tl xs) (hd xs)"

definition get_pid_for_cwd :: "runtime \<Rightarrow> child \<Rightarrow> bool \<Rightarrow> int option" where
  "get_pid_for_cwd rt c oldest =
     (case child_fd c of
        None \<Rightarrow> pid c
      | Some fd \<Rightarrow>
          (case tcgetpgrp rt fd of
             Inl e \<Rightarrow> pid c
           | Inr pgrp \<Rightarrow>
               (let foreground = (if pgrp \<ge> 0 then processes_in_group rt pgrp else [])
                in if foreground \<noteq> []
                   then Some (if oldest then py_min foreground else py_max foreground)
                   else pid c)))"

definition pid_for_cwd :: "runtime \<Rightarrow> child \<Rightarrow> int option" where
  "pid_for_cwd rt c = get_pid_for_cwd rt c False"

definition foreground_environ :: "runtime \<Rightarrow> child \<Rightarrow> (string, string) dict" where
  "foreground_environ rt c =
     (let own = (case pid c of
                   None \<Rightarrow> []
                 | Some p \<Rightarrow> (case environ_of_process rt p of Inl e \<Rightarrow> [] | Inr d \<Rightarrow> d))
      in case pid_for_cwd rt c of
           None \<Rightarrow> own
         | Some p \<Rightarrow> (case environ_of_process rt p of Inl e \<Rightarrow> own | Inr d \<Rightarrow> d))"

subsection \<open>send_signal_for_key\<close>

text \<open>
  The result is what the call returns or raises, together with the calls of
  \<^verbatim>\<open>os.killpg\<close> it made, each with its process group and signal.
\<close>

definition signal_for_key :: "termios_attr \<Rightarrow> key_code \<Rightarrow> signal option" where
  "signal_for_key t key_num =
     (if key_num = cc_VINTR t then Some SIGINT
      else if key_num = cc_VSUSP t then Some SIGTSTP
      else if key_num = cc_VQUIT t then Some SIGQUIT
      else None)"

text \<open>
  Lines 461 to 466: the terminal attributes, read from the real tty that the
  foreground environment names when it names one, from the Child's descriptor
  otherwise.
\<close>

definition terminal_attr :: "runtime \<Rightarrow> child \<Rightarrow> int \<Rightarrow> py_error + termios_attr" where
  "terminal_attr rt c fd =
     (case dict_get (foreground_environ rt c) ''KITTY_PREWARM_SOCKET_REAL_TTY'' of
        None \<Rightarrow> tcgetattr rt fd
      | Some tty_name \<Rightarrow>
          if tty_name \<noteq> [] \<and> take 1 tty_name = ''/''
          then (case open_tty rt tty_name of
                  Inl e \<Rightarrow> Inl e
                | Inr tty_fd \<Rightarrow> tcgetattr rt tty_fd)
          else tcgetattr rt fd)"

definition send_signal_for_key ::
  "runtime \<Rightarrow> child \<Rightarrow> key_code \<Rightarrow> (py_error + bool) \<times> (int \<times> signal) list" where
  "send_signal_for_key rt c key_num =
     (case child_fd c of
        None \<Rightarrow> (Inr False, [])
      | Some fd \<Rightarrow>
          (case terminal_attr rt c fd of
             Inl e \<Rightarrow> (Inl e, [])
           | Inr t \<Rightarrow>
               if lflag t AND ISIG rt = 0 then (Inr False, [])
               else (case signal_for_key t key_num of
                       None \<Rightarrow> (Inr False, [])
                     | Some s \<Rightarrow>
                         (case tcgetpgrp rt fd of
                            Inl e \<Rightarrow> (Inl e, [])
                          | Inr pgrp \<Rightarrow>
                              (case killpg rt pgrp s of
                                 Inl e \<Rightarrow> (Inl e, [(pgrp, s)])
                               | Inr u \<Rightarrow> (Inr True, [(pgrp, s)]))))))"

subsection \<open>final_env\<close>

definition checked_terminfo_dir :: "runtime \<Rightarrow> string option" where
  "checked_terminfo_dir rt = (if terminfo_dir_isdir rt then Some (terminfo_dir rt) else None)"

definition getpid :: "runtime \<Rightarrow> string" where
  "getpid rt = str_of_int (os_getpid rt)"

text \<open>
  Lines 245 to 269 of \<^verbatim>\<open>final_env\<close>: the environment as layered before the
  final filter, and the Child with \<^verbatim>\<open>unmodified_argv\<close> set and \<^verbatim>\<open>argv\<close> as the
  shell integration left it (\<^verbatim>\<open>modify_shell_environ\<close> changes the dict and the
  list it is given in place).
\<close>

definition layered_env :: "runtime \<Rightarrow> child \<Rightarrow> environment \<times> child" where
  "layered_env rt c =
     (let env0 = default_env rt;
          env1 = (if is_macos rt \<and> env0 ''LC_CTYPE'' = Some (Str ''UTF-8'')
                     \<and> \<not> lc_ctype_before_python rt \<and> \<not> lc_ctype_set_by_user rt
                  then env0(''LC_CTYPE'' := None) else env0);
          env2 = env1 ++ env c;
          env3 = env2(''TERM'' \<mapsto> opts_term rt,
                      ''COLORTERM'' \<mapsto> Str ''truecolor'',
                      ''KITTY_PID'' \<mapsto> Str (getpid rt));
          env4 = (if \<not> is_prewarmed c
                  then env3(''KITTY_PREWARM_SOCKET'' \<mapsto> Str (prewarm_socket_env_var rt),
                            ''KITTY_PREWARM_SOCKET_REAL_TTY'' \<mapsto> Str (replicate 32 (CHR '' '')))
                  else env3);
          env5 = (if cwd c \<noteq> [] then env4(''PWD'' \<mapsto> Str (cwd c)) else env4);
          env6 = (case checked_terminfo_dir rt of
                    None \<Rightarrow> env5
                  | Some tdir \<Rightarrow> if tdir \<noteq> [] then env5(''TERMINFO'' \<mapsto> Str tdir) else env5);
          env7 = env6(''KITTY_INSTALLATION_DIR'' \<mapsto> Str (kitty_base_dir rt));
          c1 = c\<lparr>unmodified_argv := Some (argv c)\<rparr>
      in if ''disabled'' \<notin> set (opts_shell_integration rt)
         then (case modify_shell_environ rt env7 (argv c1) of
                 (env8, argv') \<Rightarrow> (env8, c1\<lparr>argv := argv'\<rparr>))
         else (env7, c1))"

text \<open>Line 270: the dict comprehension that keeps what is not the sentinel.\<close>

definition drop_deleted :: "environment \<Rightarrow> environment" where
  "drop_deleted e = (\<lambda>k. case e k of Some DELETE_ENV_VAR \<Rightarrow> None | v \<Rightarrow> v)"

text \<open>
  The filter, then lines 271 to 275: on a clone launch the token object itself
  becomes the value of \<^verbatim>\<open>KITTY_IS_CLONE_LAUNCH\<close> and the Child keeps \<^verbatim>\<open>'1'\<close> in
  its place; otherwise the variable is removed.
\<close>

definition final_env :: "runtime \<Rightarrow> child \<Rightarrow> environment \<times> child" where
  "final_env rt c =
     (case layered_env rt c of
        (layered, c1) \<Rightarrow>
          (let env' = drop_deleted layered
           in if text_of rt (is_clone_launch c1) \<noteq> []
              then (env'(''KITTY_IS_CLONE_LAUNCH'' \<mapsto> is_clone_launch c1),
                    c1\<lparr>is_clone_launch := Str ''1''\<rparr>)
              else (env'(''KITTY_IS_CLONE_LAUNCH'' := None), c1)))"


subsection \<open>fork\<close>

text \<open>
  What \<^verbatim>\<open>fork\<close> does to the world, in order: the calls it makes, with the
  arguments that identify them. \<open>Ev_spawn\<close> carries the executable, the working
  directory, the argument list, the environment and the six descriptors
  (master, slave, stdin read and write, ready read and write).
\<close>

datatype event =
    Ev_openpty
  | Ev_pipe
  | Ev_set_inheritable int bool
  | Ev_final_env
  | Ev_prewarm int "string list" string environment "string option"
  | Ev_spawn string string "string list" environment "int list"
  | Ev_close int
  | Ev_thread_write int string
  | Ev_set_blocking int bool

text \<open>
  A method body is an action on the Child and the trace of events: it returns a
  value or raises, and in both cases leaves the Child as changed so far, as an
  exception in Python leaves the attributes already assigned.
\<close>

type_synonym 'a action = "child \<times> event list \<Rightarrow> (py_error + 'a) \<times> child \<times> event list"

definition returns :: "'a \<Rightarrow> 'a action" where
  "returns x s = (Inr x, s)"

definition raises :: "py_error \<Rightarrow> 'a action" where
  "raises e s = (Inl e, s)"

definition and_then :: "'a action \<Rightarrow> ('a \<Rightarrow> 'b action) \<Rightarrow> 'b action" where
  "and_then m f s = (case m s of (Inl e, s') \<Rightarrow> (Inl e, s') | (Inr x, s') \<Rightarrow> f x s')"

definition os_call :: "event \<Rightarrow> py_error + 'a \<Rightarrow> 'a action" where
  "os_call ev r s = (r, fst s, snd s @ [ev])"

definition lift_result :: "py_error + 'a \<Rightarrow> 'a action" where
  "lift_result r s = (r, s)"

definition read_self :: "child action" where
  "read_self s = (Inr (fst s), s)"

definition update_self :: "(child \<Rightarrow> child) \<Rightarrow> unit action" where
  "update_self f s = (Inr (), f (fst s), snd s)"

definition final_env_action :: "runtime \<Rightarrow> environment action" where
  "final_env_action rt s =
     (case final_env rt (fst s) of (e, c') \<Rightarrow> (Inr e, c', snd s @ [Ev_final_env]))"

text \<open>
  Lines 286 to 295, the branch of a launch that is not pre-warmed: the readiness
  pipe, the stdin pipe when there is a payload, and the environment. The result
  is \<^verbatim>\<open>(ready_read_fd, ready_write_fd, stdin_read_fd, stdin_write_fd, env)\<close>.
\<close>

definition fork_pipes ::
  "runtime \<Rightarrow> string option \<Rightarrow> (int \<times> int \<times> int \<times> int \<times> environment) action" where
  "fork_pipes rt stdin0 =
     and_then (os_call Ev_pipe (os_pipe rt 0)) (\<lambda>(ready_read_fd, ready_write_fd).
     and_then (os_call (Ev_set_inheritable ready_write_fd False) (Inr ())) (\<lambda>_.
     and_then (os_call (Ev_set_inheritable ready_read_fd True) (Inr ())) (\<lambda>_.
     and_then (case stdin0 of
                 None \<Rightarrow> returns (- 1, - 1)
               | Some payload \<Rightarrow>
                   and_then (os_call Ev_pipe (os_pipe rt 1)) (\<lambda>(stdin_read_fd, stdin_write_fd).
                   and_then (os_call (Ev_set_inheritable stdin_write_fd False) (Inr ())) (\<lambda>_.
                   and_then (os_call (Ev_set_inheritable stdin_read_fd True) (Inr ())) (\<lambda>_.
                   returns (stdin_read_fd, stdin_write_fd)))))
       (\<lambda>(stdin_read_fd, stdin_write_fd).
     and_then (final_env_action rt) (\<lambda>env.
     returns (ready_read_fd, ready_write_fd, stdin_read_fd, stdin_write_fd, env))))))"

text \<open>
  Lines 316 to 323: the pre-warm attach or the spawn. The variables that only the
  other branch binds are \<open>None\<close> here, and reading one raises
  \<^verbatim>\<open>UnboundLocalError\<close>.
\<close>

definition fork_launch ::
  "runtime \<Rightarrow> bool \<Rightarrow> int \<Rightarrow> int \<Rightarrow> string option \<Rightarrow> string \<Rightarrow> string list
     \<Rightarrow> (int \<times> int \<times> int \<times> int \<times> environment) option \<Rightarrow> int action" where
  "fork_launch rt prewarmed master slave stdin0 exe argv' pipes =
     (if prewarmed then
        and_then (final_env_action rt) (\<lambda>fe.
        and_then read_self (\<lambda>self.
        and_then (os_call (Ev_prewarm slave (argv self) (cwd self) fe stdin0) (prewarm_attach rt))
          (\<lambda>(child_process_pid, child_id).
        and_then (update_self (\<lambda>c. c\<lparr>prewarmed_child := Some (child_process_pid, child_id)\<rparr>)) (\<lambda>_.
        returns child_process_pid))))
      else
        (case pipes of
           None \<Rightarrow> raises UnboundLocalError
         | Some (ready_read_fd, ready_write_fd, stdin_read_fd, stdin_write_fd, env') \<Rightarrow>
             and_then read_self (\<lambda>self.
             os_call (Ev_spawn exe (cwd self) argv' env'
                        [master, slave, stdin_read_fd, stdin_write_fd, ready_read_fd, ready_write_fd])
               (spawn rt))))"

text \<open>Lines 327 to 332: what a launch that is not pre-warmed closes and keeps.\<close>

definition fork_finish_pipes ::
  "string option \<Rightarrow> (int \<times> int \<times> int \<times> int \<times> environment) option \<Rightarrow> unit action" where
  "fork_finish_pipes stdin0 pipes =
     (case pipes of
        None \<Rightarrow> raises UnboundLocalError
      | Some (ready_read_fd, ready_write_fd, stdin_read_fd, stdin_write_fd, env') \<Rightarrow>
          and_then (case stdin0 of
                      None \<Rightarrow> returns ()
                    | Some payload \<Rightarrow>
                        and_then (os_call (Ev_close stdin_read_fd) (Inr ())) (\<lambda>_.
                        os_call (Ev_thread_write stdin_write_fd payload) (Inr ())))
            (\<lambda>_.
          and_then (os_call (Ev_close ready_read_fd) (Inr ())) (\<lambda>_.
          update_self (\<lambda>c. c\<lparr>terminal_ready_fd := Some ready_write_fd\<rparr>))))"

text \<open>Lines 296 to 335, after the launch has been classified.\<close>

definition fork_exec ::
  "runtime \<Rightarrow> string option \<Rightarrow> int \<Rightarrow> int \<Rightarrow> bool
     \<Rightarrow> (int \<times> int \<times> int \<times> int \<times> environment) option \<Rightarrow> int option action" where
  "fork_exec rt stdin0 master slave prewarmed pipes =
     and_then read_self (\<lambda>self1.
     case argv self1 of
       [] \<Rightarrow> raises IndexError
     | exe # args \<Rightarrow>
         (let argv0 = (if is_macos rt \<and> exe = shell_path rt
                       then CHR ''-'' # last (py_split (CHR ''/'') exe) else exe);
              exe' = (case which rt exe of
                        None \<Rightarrow> exe
                      | Some found \<Rightarrow> if found \<noteq> [] then found else exe)
          in
          and_then (update_self (\<lambda>c. c\<lparr>final_exe := Some exe', final_argv0 := Some argv0\<rparr>)) (\<lambda>_.
          and_then (fork_launch rt prewarmed master slave stdin0 exe' (argv0 # args) pipes) (\<lambda>new_pid.
          and_then (os_call (Ev_close slave) (Inr ())) (\<lambda>_.
          and_then (update_self (\<lambda>c. c\<lparr>pid := Some new_pid, child_fd := Some master\<rparr>)) (\<lambda>_.
          and_then (if \<not> prewarmed then fork_finish_pipes stdin0 pipes else returns ()) (\<lambda>_.
          and_then (os_call (Ev_set_blocking master False) (Inr ())) (\<lambda>_.
          returns (Some new_pid)))))))))"

definition fork :: "runtime \<Rightarrow> int option action" where
  "fork rt =
     and_then read_self (\<lambda>self0.
     if forked self0 then returns None
     else
       and_then (update_self (\<lambda>c. c\<lparr>forked := True\<rparr>)) (\<lambda>_.
       and_then (os_call Ev_openpty (os_openpty rt)) (\<lambda>(master, slave).
       and_then (update_self (\<lambda>c. c\<lparr>stdin := None\<rparr>)) (\<lambda>_.
       and_then (lift_result (is_prewarmable (argv self0))) (\<lambda>prewarmed.
       and_then (update_self (\<lambda>c. c\<lparr>is_prewarmed := prewarmed\<rparr>)) (\<lambda>_.
       and_then (if \<not> prewarmed
                 then and_then (fork_pipes rt (stdin self0)) (\<lambda>p. returns (Some p))
                 else returns None) (\<lambda>pipes.
       fork_exec rt (stdin self0) master slave prewarmed pipes)))))))"

text \<open>
  An action keeps the \<open>forked\<close> flag when it never clears it; used to follow the
  flag through the body of \<^verbatim>\<open>fork\<close>, also along the paths that raise.
\<close>

definition keeps_forked :: "'a action \<Rightarrow> bool" where
  "keeps_forked m = (\<forall>s. forked (fst s) \<longrightarrow> forked (fst (snd (m s))))"

section \<open>A sample system\<close>

text \<open>
  A Linux system, used where a property is checked at a concrete input. The
  foreground process group of every terminal is 4242 with the members 101, 150
  and 99; the processes themselves have exited, so every read under
  \<^verbatim>\<open>/proc\<close> fails and \<^verbatim>\<open>realpath\<close> returns the path it was given. The terminal
  has signal generation on (\<^verbatim>\<open>ISIG\<close> is bit 0 on Linux) and the usual control
  characters Ctrl-C, Ctrl-Z and Ctrl-Backslash. Shell integration is disabled.
\<close>

definition sample_runtime :: runtime where
  "sample_runtime =
     \<lparr>is_macos = False,
      is_freebsd = False,
      shell_path = ''/bin/bash'',
      kitty_base_dir = ''/usr/lib/kitty'',
      terminfo_dir = ''/usr/lib/kitty/terminfo'',
      terminfo_dir_isdir = True,
      ISIG = 1,
      delete_env_var_text = ''_delete_this_env_var_'',
      opts_term = Str ''xterm-kitty'',
      opts_shell_integration = [''disabled''],
      prewarm_socket_env_var = ''3:4'',
      prewarm_worker_pid = Inr 4000,
      os_getpid = 1000,
      default_env = [''FOO'' \<mapsto> Str ''1''],
      lc_ctype_before_python = False,
      lc_ctype_set_by_user = False,
      modify_shell_environ = (\<lambda>e a. (e, a)),
      which = (\<lambda>exe. None),
      os_openpty = Inr (10, 11),
      os_pipe = (\<lambda>n. Inr (12 + 2 * int n, 13 + 2 * int n)),
      prewarm_attach = Inr (5000, 1),
      spawn = Inr 4242,
      realpath = (\<lambda>p. Inr p),
      native_cwd = (\<lambda>p. Inl OSError),
      native_cmdline = (\<lambda>p. Inl OSError),
      native_environ = (\<lambda>p. Inl OSError),
      pwdx = (\<lambda>p. Inl OSError),
      proc_read = (\<lambda>path. Inl OSError),
      process_group_map = Inr [4242 \<mapsto> [101, 150, 99]],
      cached_map = None,
      tcgetpgrp = (\<lambda>fd. Inr 4242),
      tcgetattr = (\<lambda>fd. Inr \<lparr>lflag = 1, cc_VINTR = KeyBytes [3],
                                 cc_VSUSP = KeyBytes [26], cc_VQUIT = KeyBytes [28]\<rparr>),
      open_tty = (\<lambda>name. Inl OSError),
      killpg = (\<lambda>pgrp s. Inr ())\<rparr>"

text \<open>
  A Child of \<^verbatim>\<open>/bin/bash\<close> after its launch on that system, with the per-child
  override that deletes \<^verbatim>\<open>FOO\<close>.
\<close>

definition sample_child :: child where
  "sample_child =
     \<lparr>child_fd = Some 10,
      pid = Some 4242,
      forked = True,
      is_prewarmed = False,
      allow_remote_control = False,
      is_clone_launch = Str [],
      argv = [''/bin/bash''],
      cwd = ''/home/me'',
      stdin = None,
      env = [''FOO'' \<mapsto> DELETE_ENV_VAR],
      unmodified_argv = Some [''/bin/bash''],
      final_exe = Some ''/bin/bash'',
      final_argv0 = Some ''/bin/bash'',
      prewarmed_child = None,
      terminal_ready_fd = Some 13\<rparr>"

text \<open>The same Child before its launch, with no override.\<close>

definition unlaunched_child :: child where
  "unlaunched_child =
     \<lparr>child_fd = None,
      pid = None,
      forked = False,
      is_prewarmed = False,
      allow_remote_control = False,
      is_clone_launch = Str [],
      argv = [''/bin/bash''],
      cwd = ''/home/me'',
      stdin = None,
      env = Map.empty,
      unmodified_argv = None,
      final_exe = None,
      final_argv0 = None,
      prewarmed_child = None,
      terminal_ready_fd = None\<rparr>"

section \<open>Properties of parse_environ_block\<close>

lemma index_of_None: "index_of c xs = None \<longleftrightarrow> c \<notin> set xs"
  by (induction xs) auto

lemma index_of_Some:
  "index_of c xs = Some i \<Longrightarrow> take i xs = takeWhile (\<lambda>x. x \<noteq> c) xs \<and> drop i xs = dropWhile (\<lambda>x. x \<noteq> c) xs \<and> c \<in> set xs"
  by (induction xs arbitrary: i) (auto split: if_splits)

lemma index_of_take:
  "index_of c xs = Some i \<Longrightarrow> c \<notin> set (take i xs)"
  by (induction xs arbitrary: i) (auto split: if_splits)

lemma record_entry_index:
  "record_entry r =
     (case index_of (CHR ''='') r of
        None \<Rightarrow> None
      | Some 0 \<Rightarrow> None
      | Some (Suc j) \<Rightarrow> Some (take (Suc j) r, drop (Suc (Suc j)) r))"
proof (cases "index_of (CHR ''='') r")
  case None
  then have "CHR ''='' \<notin> set r" by (simp add: index_of_None)
  with None show ?thesis by (simp add: record_entry_def)
next
  case (Some i)
  note ix = index_of_Some [OF Some]
  show ?thesis
  proof (cases i)
    case 0
    with ix Some show ?thesis by (simp add: record_entry_def)
  next
    case (Suc j)
    from ix Suc have "takeWhile (\<lambda>x. x \<noteq> CHR ''='') r \<noteq> []"
      using index_of_less [OF Some] by (metis Zero_not_Suc length_0_conv length_take min.absorb4 take_eq_Nil)
    moreover from ix have "tl (dropWhile (\<lambda>x. x \<noteq> CHR ''='') r) = drop (Suc i) r"
      by (metis drop_Suc tl_drop)
    ultimately show ?thesis using Some Suc ix by (simp add: record_entry_def)
  qed
qed

lemma str_find_drop:
  "str_find data c pos stop =
     (case index_of c (drop pos (take stop data)) of None \<Rightarrow> - 1 | Some i \<Rightarrow> int pos + int i)"
  by (simp add: str_find_def split: option.splits)

lemma parse_loop_records:
  "parse_loop data ret pos = fold apply_record (leading_records (drop pos data)) ret"
proof (induction data ret pos rule: parse_loop.induct)
  case (1 data ret pos)
  let ?rest = "drop pos data"
  show ?case
  proof (cases "index_of nul ?rest")
    case None
    then have "str_find data nul pos (length data) = - 1" by (simp add: str_find_def)
    then have "parse_loop data ret pos = ret" by (subst parse_loop.simps) simp
    moreover from None have "records ?rest = []" by (subst records.simps) simp
    ultimately show ?thesis by (simp add: leading_records_def)
  next
    case (Some n)
    then have np: "str_find data nul pos (length data) = int (pos + n)" by (simp add: str_find_def)
    from index_of_less [OF Some] have n_lt: "pos + n < length data" by simp
    from Some have recs: "records ?rest = take n ?rest # records (drop (Suc n) ?rest)"
      by (subst records.simps) simp
    show ?thesis
    proof (cases n)
      case 0
      with np have "parse_loop data ret pos = ret" by (subst parse_loop.simps) simp
      with recs 0 show ?thesis by (simp add: leading_records_def)
    next
      case (Suc i)
      let ?r = "take n ?rest"
      have r_eq: "drop pos (take (pos + n) data) = ?r" by (simp add: take_drop add.commute)
      have r_ne: "?r \<noteq> []" using Suc n_lt by auto
      let ?eqp = "str_find data (CHR ''='') pos (pos + n)"
      let ?ret' = "if ?eqp > int pos
                    then dict_set (slice data pos (nat ?eqp))
                           (slice data (nat ?eqp + 1) (pos + n)) ret
                    else ret"
      have ng: "\<not> int (pos + n) \<le> int pos" using Suc by simp
      have step: "parse_loop data ret pos = parse_loop data ?ret' (pos + n + 1)"
        using ng by (subst parse_loop.simps) (simp only: np Let_def nat_int if_False)
      have IH: "parse_loop data ?ret' (pos + n + 1) =
          fold apply_record (leading_records (drop (pos + n + 1) data)) ?ret'"
        using "1.IH" [OF np [symmetric] ng refl refl] by (simp only: nat_int)
      have ret'_eq: "?ret' = apply_record ?r ret"
      proof (cases "index_of (CHR ''='') ?r")
        case None
        then have "?eqp = - 1" by (simp add: str_find_def r_eq)
        with None show ?thesis by (simp add: apply_record_def record_entry_index)
      next
        case (Some j)
        then have e: "?eqp = int (pos + j)" by (simp add: str_find_def r_eq)
        from index_of_less [OF Some] have j_lt: "j < n" by simp
        show ?thesis
        proof (cases j)
          case 0
          with e Some show ?thesis by (simp add: apply_record_def record_entry_index)
        next
          case (Suc j')
          have ne: "nat ?eqp = pos + j" using e by (simp only: nat_int)
          have k: "slice data pos (nat ?eqp) = take j ?r"
            unfolding ne using j_lt by (simp add: slice_def take_drop add.commute min_def)
          have v: "slice data (nat ?eqp + 1) (pos + n) = drop (Suc j) ?r"
            unfolding ne using j_lt by (simp add: slice_def take_drop add.commute)
          from Some Suc e k v show ?thesis
            by (simp add: apply_record_def record_entry_index)
        qed
      qed
      have "leading_records ?rest = ?r # leading_records (drop (pos + n + 1) data)"
        using recs r_ne by (simp add: leading_records_def add.commute)
      with step IH ret'_eq show ?thesis by simp
    qed
  qed
qed

lemma nul_neq_eq: "nul \<noteq> CHR ''=''"
  by (simp add: nul_def)

lemma index_of_append: "c \<notin> set xs \<Longrightarrow> index_of c (xs @ c # ys) = Some (length xs)"
  by (induction xs) auto

lemma records_Nil: "records [] = []"
  by (subst records.simps) simp

lemma records_append: "nul \<notin> set r \<Longrightarrow> records (r @ nul # rest) = r # records rest"
  by (subst records.simps) (simp add: index_of_append)

lemma records_no_nul: "r \<in> set (records data) \<Longrightarrow> nul \<notin> set r"
proof (induction data rule: records.induct)
  case (1 data)
  show ?case
  proof (cases "index_of nul data")
    case None
    with "1.prems" show ?thesis by (subst (asm) records.simps) simp
  next
    case (Some n)
    with "1.prems" have "r = take n data \<or> r \<in> set (records (drop (Suc n) data))"
      by (subst (asm) records.simps) simp
    then show ?thesis
      using index_of_take [OF Some] "1.IH" [OF Some] by blast
  qed
qed

lemma record_entry_Some:
  assumes "record_entry r = Some (k, v)"
  shows "k \<noteq> []" and "CHR ''='' \<notin> set k" and "set k \<subseteq> set r" and "set v \<subseteq> set r"
    and "r = k @ ''='' @ v"
proof -
  let ?P = "\<lambda>c. c \<noteq> CHR ''=''"
  from assms have mem: "CHR ''='' \<in> set r" and k: "k = takeWhile ?P r" and ne: "k \<noteq> []"
    and v: "v = tl (dropWhile ?P r)"
    by (auto simp: record_entry_def split: if_splits)
  show "k \<noteq> []" by (rule ne)
  show "CHR ''='' \<notin> set k" unfolding k by (auto dest: set_takeWhileD)
  show "set k \<subseteq> set r" unfolding k by (auto dest: set_takeWhileD)
  from mem have dne: "dropWhile ?P r \<noteq> []" by auto
  then have hd_eq: "hd (dropWhile ?P r) = CHR ''=''"
    using hd_dropWhile [of ?P r] by simp
  from dne hd_eq have d: "dropWhile ?P r = CHR ''='' # v" unfolding v
    by (cases "dropWhile ?P r") auto
  have "r = takeWhile ?P r @ dropWhile ?P r" by simp
  with d k show r: "r = k @ ''='' @ v" by simp
  then show "set v \<subseteq> set r" by auto
qed

lemma split_at_sep:
  "c \<notin> set k \<Longrightarrow>
     takeWhile (\<lambda>x. x \<noteq> c) (k @ c # v) = k \<and> dropWhile (\<lambda>x. x \<noteq> c) (k @ c # v) = c # v"
  by (induction k) auto

lemma record_entry_join:
  "k \<noteq> [] \<Longrightarrow> CHR ''='' \<notin> set k \<Longrightarrow> record_entry (k @ ''='' @ v) = Some (k, v)"
  using split_at_sep [of "CHR ''=''" k v] by (simp add: record_entry_def)

lemma map_fst_dict_set:
  "map fst (dict_set k v d) = (if k \<in> fst ` set d then map fst d else map fst d @ [k])"
  by (induction d) auto

lemma set_dict_set: "set (dict_set k v d) \<subseteq> insert (k, v) (set d)"
  by (induction d) auto

lemma dict_set_new: "k \<notin> fst ` set d \<Longrightarrow> dict_set k v d = d @ [(k, v)]"
  by (induction d) auto

lemma dict_get_dict_set: "dict_get (dict_set k v d) = (dict_get d)(k \<mapsto> v)"
  by (induction d) (auto simp: dict_get_def fun_eq_iff)

lemma dict_ok_dict_set:
  assumes "dict_ok d" and "entry_ok (k, v)"
  shows "dict_ok (dict_set k v d)"
proof -
  from assms have "distinct (map fst (dict_set k v d))"
    by (auto simp: dict_ok_def map_fst_dict_set)
  moreover from assms set_dict_set [of k v d] have "list_all entry_ok (dict_set k v d)"
    by (auto simp: dict_ok_def list_all_iff)
  ultimately show ?thesis by (simp add: dict_ok_def)
qed

lemma dict_ok_apply_record:
  assumes "dict_ok d" and "nul \<notin> set r"
  shows "dict_ok (apply_record r d)"
proof (cases "record_entry r")
  case None
  with assms show ?thesis by (simp add: apply_record_def)
next
  case (Some e)
  obtain k v where e: "e = (k, v)" by (cases e)
  from record_entry_Some [OF Some [unfolded e]] assms(2) have "entry_ok (k, v)"
    by (auto simp: entry_ok_def)
  with assms(1) Some e show ?thesis by (simp add: apply_record_def dict_ok_dict_set)
qed

lemma dict_ok_fold:
  "dict_ok d \<Longrightarrow> list_all (\<lambda>r. nul \<notin> set r) rs \<Longrightarrow> dict_ok (fold apply_record rs d)"
  by (induction rs arbitrary: d) (auto simp: dict_ok_apply_record)

lemma parse_environ_block_records:
  "parse_environ_block data = fold apply_record (leading_records data) []"
  by (simp add: parse_environ_block_def parse_loop_records)

lemma dict_ok_parse: "dict_ok (parse_environ_block data)"
proof -
  have "list_all (\<lambda>r. nul \<notin> set r) (leading_records data)"
    by (auto simp: list_all_iff leading_records_def dest!: set_takeWhileD records_no_nul)
  then show ?thesis
    unfolding parse_environ_block_records by (intro dict_ok_fold) (simp_all add: dict_ok_def)
qed

lemma records_serialize:
  "list_all entry_ok d \<Longrightarrow> records (serialize d) = map (\<lambda>(k, v). k @ ''='' @ v) d"
proof (induction d)
  case Nil
  then show ?case by (simp add: serialize_def records_Nil)
next
  case (Cons e d)
  obtain k v where e: "e = (k, v)" by (cases e)
  from Cons.prems e have "nul \<notin> set (k @ ''='' @ v)"
    using nul_neq_eq by (auto simp: entry_ok_def)
  then have "records ((k @ ''='' @ v) @ nul # serialize d) = (k @ ''='' @ v) # records (serialize d)"
    by (rule records_append)
  with Cons e show ?case by (simp add: serialize_def)
qed

lemma fold_apply_serialized:
  "list_all entry_ok d \<Longrightarrow>
     fold apply_record (map (\<lambda>(k, v). k @ ''='' @ v) d) acc = fold (\<lambda>(k, v). dict_set k v) d acc"
proof (induction d arbitrary: acc)
  case Nil
  then show ?case by simp
next
  case (Cons e d)
  obtain k v where e: "e = (k, v)" by (cases e)
  from Cons.prems e have "record_entry (k @ ''='' @ v) = Some (k, v)"
    by (intro record_entry_join) (auto simp: entry_ok_def)
  with Cons e show ?case by (simp add: apply_record_def)
qed

lemma fold_dict_set_distinct:
  "distinct (map fst d) \<Longrightarrow> fst ` set acc \<inter> fst ` set d = {} \<Longrightarrow>
     fold (\<lambda>(k, v). dict_set k v) d acc = acc @ d"
proof (induction d arbitrary: acc)
  case Nil
  then show ?case by simp
next
  case (Cons e d)
  obtain k v where e: "e = (k, v)" by (cases e)
  from Cons.prems e have new: "k \<notin> fst ` set acc" by auto
  from Cons.prems e have "fst ` set (acc @ [(k, v)]) \<inter> fst ` set d = {}" by auto
  with Cons e new show ?case by (simp add: dict_set_new)
qed

lemma parse_serialize:
  assumes "dict_ok d"
  shows "parse_environ_block (serialize d) = d"
proof -
  from assms have ok: "list_all entry_ok d" and dist: "distinct (map fst d)"
    by (simp_all add: dict_ok_def)
  have ne: "\<forall>r \<in> set (map (\<lambda>(k, v). k @ ''='' @ v) d). r \<noteq> []" by auto
  have "leading_records (serialize d) = map (\<lambda>(k, v). k @ ''='' @ v) d"
    unfolding leading_records_def records_serialize [OF ok]
    using ne by (intro takeWhile_eq_all_conv [THEN iffD2]) blast
  then show ?thesis
    using fold_apply_serialized [OF ok, of "[]"] fold_dict_set_distinct [OF dist, of "[]"]
    by (simp add: parse_environ_block_records)
qed

text \<open>
  The loop ends from every state: each recursive call of \<open>parse_loop\<close> lowers
  \<^verbatim>\<open>len(data) - pos\<close>, so every state is accessible for the call relation.
\<close>

lemma parse_loop_total: "parse_loop_dom (data, ret, pos)"
proof -
  let ?m = "\<lambda>(data :: string, ret :: (string, string) dict, pos :: nat). length data - pos"
  let ?R = "\<lambda>x y. (x, y) \<in> measure ?m"
  have "wfp ?R"
    by (simp only: wfp_wf_eq wf_measure)
  then have acc: "Wellfounded.accp ?R (data, ret, pos)"
    by (rule accp_wfpD)
  have "parse_loop_rel x y \<Longrightarrow> ?R x y" for x y
  proof (erule parse_loop_rel.cases)
    fix data ret pos next_pos equal_pos ret'
    assume x: "x = (data, ret', nat next_pos + 1)" and y: "y = (data, ret, pos)"
      and "next_pos = str_find data nul pos (length data)" and "\<not> next_pos \<le> int pos"
    from parse_loop_decreases [OF this(3,4)] x y show "?R x y" by simp
  qed
  then have "parse_loop_rel \<le> ?R" by blast
  from accp_subset [OF this] acc show ?thesis by blast
qed

lemma fold_apply_record_map:
  "dict_get (fold apply_record rs d) =
     fold (\<lambda>r m. case record_entry r of None \<Rightarrow> m | Some (k, v) \<Rightarrow> m(k \<mapsto> v)) rs (dict_get d)"
  by (induction rs arbitrary: d) (auto simp: apply_record_def dict_get_dict_set split: option.splits)

subsection \<open>Claim C2\<close>

text \<open>
  C2. \<open>parse_environ_block\<close> is total and never raises: the model has no error
  branch because \<^verbatim>\<open>str.find\<close>, slicing and dict assignment cannot raise on a
  \<^verbatim>\<open>str\<close>, and the \<^verbatim>\<open>while True\<close> loop ends on every input (the start state of
  the loop lies in the domain of termination). What it returns is a mapping (its
  keys are distinct). On the three inputs of the specification:
  \<^verbatim>\<open>"A=1\0B=2\0"\<close> gives \<^verbatim>\<open>{"A": "1", "B": "2"}\<close>,
  \<^verbatim>\<open>"A=1\0GARBAGE\0B=2\0"\<close> gives the same mapping, the record without \<open>=\<close>
  adding no entry, and the empty string gives the empty mapping.
\<close>

theorem parse_environ_block_total:
  "parse_loop_dom (data, [], 0)
   \<and> distinct (map fst (parse_environ_block data))
   \<and> parse_environ_block (''A=1'' @ [nul] @ ''B=2'' @ [nul]) = [(''A'', ''1''), (''B'', ''2'')]
   \<and> parse_environ_block (''A=1'' @ [nul] @ ''GARBAGE'' @ [nul] @ ''B=2'' @ [nul])
       = [(''A'', ''1''), (''B'', ''2'')]
   \<and> parse_environ_block [] = []"
proof (intro conjI)
  show "parse_loop_dom (data, [], 0)"
    by (rule parse_loop_total)
  show "distinct (map fst (parse_environ_block data))"
    using dict_ok_parse [of data] by (simp add: dict_ok_def)
  show "parse_environ_block (''A=1'' @ [nul] @ ''B=2'' @ [nul]) = [(''A'', ''1''), (''B'', ''2'')]"
    by code_simp
  show "parse_environ_block (''A=1'' @ [nul] @ ''GARBAGE'' @ [nul] @ ''B=2'' @ [nul])
       = [(''A'', ''1''), (''B'', ''2'')]"
    by code_simp
  show "parse_environ_block [] = []"
    by code_simp
qed

subsection \<open>Claim C3\<close>

text \<open>
  C3. For every input string \<open>s\<close>, writing the parsed mapping back as
  \<^verbatim>\<open>KEY=VALUE\0\<close> records and parsing again yields exactly the parsed mapping
  (with the same order of keys): parse after serialize after parse is parse.
  Records without \<open>=\<close> were dropped by the first parse and are not in the
  serialized block.
\<close>

theorem parse_serialize_parse:
  "parse_environ_block (serialize (parse_environ_block s)) = parse_environ_block s"
proof -
  have "dict_ok (parse_environ_block s)"
    by (rule dict_ok_parse)
  then show ?thesis
    by (rule parse_serialize)
qed

subsection \<open>Claim C4\<close>

text \<open>
  C4 as stated fails on the code in two ways. A record that begins with \<open>=\<close>
  contains an \<open>=\<close> but adds no entry, since the loop asks for
  \<^verbatim>\<open>equal_pos > pos\<close>; and a NUL-terminated record that follows an empty record
  is never read, since the loop breaks at \<^verbatim>\<open>next_pos <= pos\<close>.
\<close>

theorem parse_environ_block_drops_counterexample:
  "parse_environ_block (''=x'' @ [nul]) = []
   \<and> parse_environ_block ([nul] @ ''A=1'' @ [nul]) = []"
  by code_simp

text \<open>
  C4, amended. Parsing reads the NUL-terminated records that come before the first
  empty record, in order. A record that contains an \<open>=\<close> and does not begin with it
  adds an entry whose key is the text before the first \<open>=\<close> and whose value is the
  text after it, a later duplicate key overwriting the earlier value; a record
  with no \<open>=\<close>, or with nothing before its first \<open>=\<close>, adds no entry. Records
  after the first empty record, and an unterminated tail, are not read. So
  \<^verbatim>\<open>"A=b=c\0"\<close> gives \<^verbatim>\<open>{"A": "b=c"}\<close>, \<^verbatim>\<open>"A=1\0B=2\0A=3\0"\<close> gives
  \<^verbatim>\<open>{"A": "3", "B": "2"}\<close>, and both \<^verbatim>\<open>"A=1\0\0B=2\0"\<close> and \<^verbatim>\<open>"A=1\0B=2"\<close>
  give \<^verbatim>\<open>{"A": "1"}\<close>.
\<close>

theorem parse_environ_block_by_records:
  "parse_environ_block data = fold apply_record (leading_records data) []
   \<and> dict_get (parse_environ_block data) =
       fold (\<lambda>r m. case record_entry r of None \<Rightarrow> m | Some (k, v) \<Rightarrow> m(k \<mapsto> v))
         (leading_records data) Map.empty
   \<and> parse_environ_block (''A=b=c'' @ [nul]) = [(''A'', ''b=c'')]
   \<and> parse_environ_block (''A=1'' @ [nul] @ ''B=2'' @ [nul] @ ''A=3'' @ [nul])
       = [(''A'', ''3''), (''B'', ''2'')]
   \<and> parse_environ_block (''A=1'' @ [nul] @ [nul] @ ''B=2'' @ [nul]) = [(''A'', ''1'')]
   \<and> parse_environ_block (''A=1'' @ [nul] @ ''B=2'') = [(''A'', ''1'')]"
proof (intro conjI)
  show "parse_environ_block data = fold apply_record (leading_records data) []"
    by (rule parse_environ_block_records)
  moreover have "dict_get ([] :: (string, string) dict) = Map.empty"
    by (simp add: dict_get_def fun_eq_iff)
  ultimately show "dict_get (parse_environ_block data) =
       fold (\<lambda>r m. case record_entry r of None \<Rightarrow> m | Some (k, v) \<Rightarrow> m(k \<mapsto> v))
         (leading_records data) Map.empty"
    by (simp add: fold_apply_record_map)
  show "parse_environ_block (''A=b=c'' @ [nul]) = [(''A'', ''b=c'')]"
    by code_simp
  show "parse_environ_block (''A=1'' @ [nul] @ ''B=2'' @ [nul] @ ''A=3'' @ [nul])
       = [(''A'', ''3''), (''B'', ''2'')]"
    by code_simp
  show "parse_environ_block (''A=1'' @ [nul] @ [nul] @ ''B=2'' @ [nul]) = [(''A'', ''1'')]"
    by code_simp
  show "parse_environ_block (''A=1'' @ [nul] @ ''B=2'') = [(''A'', ''1'')]"
    by code_simp
qed

section \<open>Properties of is_prewarmable\<close>

lemma is_prewarmable_empty_argv1:
  "is_prewarmable [''kitty'', [], ''ls''] = Inl IndexError"
  by (simp add: is_prewarmable_def basename_def)

subsection \<open>Claim C5\<close>

text \<open>
  C5 as stated excludes an \<open>@\<close> form of the \<open>open\<close> subcommand. The code excludes
  none: every \<^verbatim>\<open>argv[1]\<close> that starts with \<open>@\<close> is pre-warmable, also when the
  subcommand is \<open>open\<close>.
\<close>

theorem is_prewarmable_at_open_counterexample:
  "is_prewarmable [''kitty'', ''@'', ''open'', ''/tmp''] = Inr True
   \<and> is_prewarmable [''kitty'', ''@open'', ''/tmp''] = Inr True"
  by (simp add: is_prewarmable_def basename_def)

text \<open>
  C5, amended. \<open>is_prewarmable args\<close> is true exactly when \<open>args\<close> has at least 3
  elements, the basename of \<^verbatim>\<open>argv[0]\<close> is \<open>kitty\<close>, and \<^verbatim>\<open>argv[1]\<close> either
  starts with \<open>@\<close>, or starts with \<open>+\<close> and is neither \<open>+open\<close> nor the lone \<open>+\<close>
  followed by \<^verbatim>\<open>argv[2] == 'open'\<close>. The four examples of the specification hold:
  \<^verbatim>\<open>["kitty","@","ls"]\<close> is pre-warmable; \<^verbatim>\<open>["kitty","+","open","/tmp"]\<close>,
  \<^verbatim>\<open>["kitty","+open","/tmp"]\<close> and \<^verbatim>\<open>["bash"]\<close> are not.
\<close>

theorem is_prewarmable_true_iff:
  "(is_prewarmable args = Inr True \<longleftrightarrow>
     (3 \<le> length args \<and> basename (args ! 0) = ''kitty''
      \<and> (take 1 (args ! 1) = ''@''
          \<or> (take 1 (args ! 1) = ''+'' \<and> args ! 1 \<noteq> ''+open''
              \<and> \<not> (args ! 1 = ''+'' \<and> args ! 2 = ''open'')))))
   \<and> is_prewarmable [''kitty'', ''@'', ''ls''] = Inr True
   \<and> is_prewarmable [''kitty'', ''+'', ''open'', ''/tmp''] = Inr False
   \<and> is_prewarmable [''kitty'', ''+open'', ''/tmp''] = Inr False
   \<and> is_prewarmable [''bash''] = Inr False"
proof (intro conjI)
  show "is_prewarmable args = Inr True \<longleftrightarrow>
     (3 \<le> length args \<and> basename (args ! 0) = ''kitty''
      \<and> (take 1 (args ! 1) = ''@''
          \<or> (take 1 (args ! 1) = ''+'' \<and> args ! 1 \<noteq> ''+open''
              \<and> \<not> (args ! 1 = ''+'' \<and> args ! 2 = ''open''))))"
  proof (cases "args ! 1")
    case Nil
    then show ?thesis by (simp add: is_prewarmable_def)
  next
    case (Cons a s)
    then show ?thesis by (auto simp: is_prewarmable_def)
  qed
qed (simp_all add: is_prewarmable_def basename_def)

section \<open>Properties of get_pid_for_cwd\<close>

lemma py_max_Max: "xs \<noteq> [] \<Longrightarrow> py_max xs = Max (set xs)"
proof (cases xs)
  case Nil
  assume "xs \<noteq> []"
  with Nil show ?thesis by simp
next
  case (Cons a list)
  then show ?thesis using Max.set_eq_fold [of a list] by (simp add: py_max_def)
qed

lemma py_min_Min: "xs \<noteq> [] \<Longrightarrow> py_min xs = Min (set xs)"
proof (cases xs)
  case Nil
  assume "xs \<noteq> []"
  with Nil show ?thesis by simp
next
  case (Cons a list)
  then show ?thesis using Min.set_eq_fold [of a list] by (simp add: py_min_def)
qed

lemma sample_group: "processes_in_group sample_runtime 4242 = [101, 150, 99]"
  by (simp add: processes_in_group_def sample_runtime_def)

subsection \<open>Claim C6\<close>

text \<open>
  C6. When the foreground process group of the Child's terminal has members (the
  Child has its descriptor, \<^verbatim>\<open>tcgetpgrp\<close> returns a group id that is not
  negative, and \<^verbatim>\<open>processes_in_group\<close> finds a non-empty list of pids for it),
  \<open>get_pid_for_cwd\<close> returns the greatest pid of the group by default and the
  least pid when \<open>oldest\<close> is asked for.
\<close>

theorem get_pid_for_cwd_max_min:
  assumes "child_fd c = Some fd" and "tcgetpgrp rt fd = Inr pgrp" and "0 \<le> pgrp"
    and "processes_in_group rt pgrp = pids" and "pids \<noteq> []"
  shows "get_pid_for_cwd rt c False = Some (Max (set pids))
         \<and> get_pid_for_cwd rt c True = Some (Min (set pids))"
  using assms by (simp add: get_pid_for_cwd_def py_max_Max py_min_Min)

text \<open>With the group pids 101, 150 and 99 the results are 150 and 99.\<close>

theorem get_pid_for_cwd_max_min_witness:
  "get_pid_for_cwd sample_runtime sample_child False = Some 150
   \<and> get_pid_for_cwd sample_runtime sample_child True = Some 99"
proof -
  have fd: "child_fd sample_child = Some 10" by (simp add: sample_child_def)
  have pg: "tcgetpgrp sample_runtime 10 = Inr 4242" by (simp add: sample_runtime_def)
  have ne: "[101, 150, 99 :: int] \<noteq> []" by simp
  have nonneg: "(0 :: int) \<le> 4242" by simp
  from get_pid_for_cwd_max_min [OF fd pg nonneg sample_group ne]
  show ?thesis by simp
qed

subsection \<open>Claim C10\<close>

text \<open>
  C10. When the foreground process group cannot be determined (the Child has no
  descriptor, \<^verbatim>\<open>tcgetpgrp\<close> raises, or the group id is negative) or the group
  has no member pids, \<open>get_pid_for_cwd\<close> returns the Child's own \<open>pid\<close>, for
  either value of \<open>oldest\<close>; it has no raising branch.
\<close>

theorem get_pid_for_cwd_fallback:
  assumes "child_fd c = None
           \<or> (\<exists>fd e. child_fd c = Some fd \<and> tcgetpgrp rt fd = Inl e)
           \<or> (\<exists>fd pgrp. child_fd c = Some fd \<and> tcgetpgrp rt fd = Inr pgrp
                 \<and> (pgrp < 0 \<or> processes_in_group rt pgrp = []))"
  shows "get_pid_for_cwd rt c oldest = pid c"
  using assms by (auto simp: get_pid_for_cwd_def)

text \<open>
  One Child for each of the four cases, and a Child that was never launched,
  whose pid is \<open>None\<close>.
\<close>

theorem get_pid_for_cwd_fallback_witness:
  "get_pid_for_cwd sample_runtime (sample_child\<lparr>child_fd := None\<rparr>) False = Some 4242
   \<and> get_pid_for_cwd (sample_runtime\<lparr>tcgetpgrp := \<lambda>fd. Inl OSError\<rparr>) sample_child False = Some 4242
   \<and> get_pid_for_cwd (sample_runtime\<lparr>tcgetpgrp := \<lambda>fd. Inr (- 1)\<rparr>) sample_child True = Some 4242
   \<and> get_pid_for_cwd (sample_runtime\<lparr>tcgetpgrp := \<lambda>fd. Inr 7\<rparr>) sample_child False = Some 4242
   \<and> get_pid_for_cwd sample_runtime (sample_child\<lparr>child_fd := None, pid := None\<rparr>) False = None"
proof (intro conjI)
  have "child_fd (sample_child\<lparr>child_fd := None\<rparr>) = None" by simp
  then have "get_pid_for_cwd sample_runtime (sample_child\<lparr>child_fd := None\<rparr>) False
      = pid (sample_child\<lparr>child_fd := None\<rparr>)"
    by (intro get_pid_for_cwd_fallback) simp
  then show "get_pid_for_cwd sample_runtime (sample_child\<lparr>child_fd := None\<rparr>) False = Some 4242"
    by (simp add: sample_child_def)
next
  let ?rt = "sample_runtime\<lparr>tcgetpgrp := \<lambda>fd. Inl OSError\<rparr>"
  have "\<exists>fd e. child_fd sample_child = Some fd \<and> tcgetpgrp ?rt fd = Inl e"
    by (simp add: sample_child_def)
  then have "get_pid_for_cwd ?rt sample_child False = pid sample_child"
    by (intro get_pid_for_cwd_fallback) simp
  then show "get_pid_for_cwd ?rt sample_child False = Some 4242"
    by (simp add: sample_child_def)
next
  let ?rt = "sample_runtime\<lparr>tcgetpgrp := \<lambda>fd. Inr (- 1)\<rparr>"
  have "\<exists>fd pgrp. child_fd sample_child = Some fd \<and> tcgetpgrp ?rt fd = Inr pgrp
      \<and> (pgrp < 0 \<or> processes_in_group ?rt pgrp = [])"
    by (simp add: sample_child_def)
  then have "get_pid_for_cwd ?rt sample_child True = pid sample_child"
    by (intro get_pid_for_cwd_fallback) simp
  then show "get_pid_for_cwd ?rt sample_child True = Some 4242"
    by (simp add: sample_child_def)
next
  let ?rt = "sample_runtime\<lparr>tcgetpgrp := \<lambda>fd. Inr 7\<rparr>"
  have "processes_in_group ?rt 7 = []"
    by (simp add: processes_in_group_def sample_runtime_def)
  then have "\<exists>fd pgrp. child_fd sample_child = Some fd \<and> tcgetpgrp ?rt fd = Inr pgrp
      \<and> (pgrp < 0 \<or> processes_in_group ?rt pgrp = [])"
    by (simp add: sample_child_def)
  then have "get_pid_for_cwd ?rt sample_child False = pid sample_child"
    by (intro get_pid_for_cwd_fallback) simp
  then show "get_pid_for_cwd ?rt sample_child False = Some 4242"
    by (simp add: sample_child_def)
next
  let ?c = "sample_child\<lparr>child_fd := None, pid := None\<rparr>"
  have "child_fd ?c = None" by simp
  then have "get_pid_for_cwd sample_runtime ?c False = pid ?c"
    by (intro get_pid_for_cwd_fallback) simp
  then show "get_pid_for_cwd sample_runtime ?c False = None"
    by simp
qed

section \<open>Properties of fork\<close>

lemma keeps_forked_returns: "keeps_forked (returns x)"
  by (simp add: keeps_forked_def returns_def)

lemma keeps_forked_raises: "keeps_forked (raises e)"
  by (simp add: keeps_forked_def raises_def)

lemma keeps_forked_os_call: "keeps_forked (os_call ev r)"
  by (simp add: keeps_forked_def os_call_def)

lemma keeps_forked_lift_result: "keeps_forked (lift_result r)"
  by (simp add: keeps_forked_def lift_result_def)

lemma keeps_forked_read_self: "keeps_forked read_self"
  by (simp add: keeps_forked_def read_self_def)

lemma keeps_forked_update_self:
  "(\<And>c. forked (f c) = forked c) \<Longrightarrow> keeps_forked (update_self f)"
  by (simp add: keeps_forked_def update_self_def)

lemma keeps_forked_and_then:
  assumes "keeps_forked m" and "\<And>x. keeps_forked (f x)"
  shows "keeps_forked (and_then m f)"
  unfolding keeps_forked_def
proof (intro allI impI)
  fix s :: "child \<times> event list"
  assume fk: "forked (fst s)"
  obtain r s' where ms: "m s = (r, s')" by (cases "m s")
  from assms(1) [unfolded keeps_forked_def, rule_format, OF fk] ms
  have fk': "forked (fst s')" by simp
  show "forked (fst (snd (and_then m f s)))"
  proof (cases r)
    case (Inl e)
    with ms fk' show ?thesis by (simp add: and_then_def)
  next
    case (Inr x)
    with ms assms(2) [of x, unfolded keeps_forked_def, rule_format, OF fk']
    show ?thesis by (simp add: and_then_def)
  qed
qed

lemma forked_layered_env: "forked (snd (layered_env rt c)) = forked c"
  by (simp add: layered_env_def Let_def split: prod.splits)

lemma forked_final_env: "forked (snd (final_env rt c)) = forked c"
proof -
  obtain layered c1 where l: "layered_env rt c = (layered, c1)" by (cases "layered_env rt c")
  with forked_layered_env [of rt c] have "forked c1 = forked c" by simp
  with l show ?thesis by (simp add: final_env_def Let_def)
qed

lemma keeps_forked_final_env_action: "keeps_forked (final_env_action rt)"
  unfolding keeps_forked_def
proof (intro allI impI)
  fix s :: "child \<times> event list"
  assume fk: "forked (fst s)"
  obtain e c' where fe: "final_env rt (fst s) = (e, c')" by (cases "final_env rt (fst s)")
  with forked_final_env [of rt "fst s"] fk have "forked c'" by simp
  with fe show "forked (fst (snd (final_env_action rt s)))" by (simp add: final_env_action_def)
qed

lemmas keeps_forked_intros =
  keeps_forked_and_then keeps_forked_returns keeps_forked_raises keeps_forked_os_call
  keeps_forked_lift_result keeps_forked_read_self keeps_forked_update_self
  keeps_forked_final_env_action

lemma keeps_forked_fork_pipes: "keeps_forked (fork_pipes rt stdin0)"
  unfolding fork_pipes_def
  by (auto intro!: keeps_forked_intros split: option.splits)

lemma keeps_forked_fork_launch:
  "keeps_forked (fork_launch rt prewarmed master slave stdin0 exe argv' pipes)"
  unfolding fork_launch_def
  by (auto intro!: keeps_forked_intros split: option.splits)

lemma keeps_forked_fork_finish_pipes: "keeps_forked (fork_finish_pipes stdin0 pipes)"
  unfolding fork_finish_pipes_def
  by (auto intro!: keeps_forked_intros split: option.splits)

lemma keeps_forked_fork_exec:
  "keeps_forked (fork_exec rt stdin0 master slave prewarmed pipes)"
  unfolding fork_exec_def Let_def
  by (auto intro!: keeps_forked_intros keeps_forked_fork_launch keeps_forked_fork_finish_pipes
      split: list.splits)

lemma fork_sets_forked: "forked (fst (snd (fork rt s)))"
proof (cases "forked (fst s)")
  case True
  then show ?thesis by (simp add: fork_def and_then_def read_self_def returns_def)
next
  case False
  let ?rest = "\<lambda>u :: unit.
       and_then (os_call Ev_openpty (os_openpty rt)) (\<lambda>(master, slave).
       and_then (update_self (\<lambda>c. c\<lparr>stdin := None\<rparr>)) (\<lambda>_.
       and_then (lift_result (is_prewarmable (argv (fst s)))) (\<lambda>prewarmed.
       and_then (update_self (\<lambda>c. c\<lparr>is_prewarmed := prewarmed\<rparr>)) (\<lambda>_.
       and_then (if \<not> prewarmed
                 then and_then (fork_pipes rt (stdin (fst s))) (\<lambda>p. returns (Some p))
                 else returns None) (\<lambda>pipes.
       fork_exec rt (stdin (fst s)) master slave prewarmed pipes)))))"
  have keeps: "keeps_forked (?rest ())"
    by (auto intro!: keeps_forked_intros keeps_forked_fork_pipes keeps_forked_fork_exec)
  from False have "fork rt s = ?rest () ((fst s)\<lparr>forked := True\<rparr>, snd s)"
    by (simp add: fork_def and_then_def read_self_def update_self_def)
  with keeps show ?thesis by (simp add: keeps_forked_def)
qed

lemma fork_when_forked: "forked c \<Longrightarrow> fork rt (c, tr) = (Inr None, c, tr)"
  by (simp add: fork_def and_then_def read_self_def returns_def)

text \<open>
  Two first calls on the sample system: one that launches the Child, and one
  whose \<^verbatim>\<open>openpty\<close> raises, which leaves the Child without a pid and with the
  \<open>forked\<close> flag set.
\<close>

lemma fork_first_call_returns:
  "fst (fork sample_runtime (unlaunched_child, [])) = Inr (Some 4242)
   \<and> pid (fst (snd (fork sample_runtime (unlaunched_child, [])))) = Some 4242
   \<and> child_fd (fst (snd (fork sample_runtime (unlaunched_child, [])))) = Some 10"
  by code_simp

lemma fork_first_call_raises:
  "fst (fork (sample_runtime\<lparr>os_openpty := Inl OSError\<rparr>) (unlaunched_child, [])) = Inl OSError
   \<and> forked (fst (snd (fork (sample_runtime\<lparr>os_openpty := Inl OSError\<rparr>) (unlaunched_child, []))))
   \<and> pid (fst (snd (fork (sample_runtime\<lparr>os_openpty := Inl OSError\<rparr>) (unlaunched_child, [])))) = None"
  by code_simp

subsection \<open>Claim C1\<close>

text \<open>
  C1. After a first call of \<open>fork\<close>, whatever it did (returned a pid, returned
  \<open>None\<close>, or raised at any point of its body), the Child has \<open>forked\<close> set:
  the flag is assigned before the first call that can raise and nothing clears
  it. A second call, in any later state of the system, then returns \<open>None\<close>,
  leaves the Child as it is in every field (so \<open>pid\<close> and \<open>child_fd\<close> too), and
  adds no event to the trace: no pseudo-terminal is opened, no environment is
  built and nothing is spawned.
\<close>

theorem fork_twice:
  "forked (fst (snd (fork rt (c, tr))))
   \<and> fork rt' (fst (snd (fork rt (c, tr))), tr') = (Inr None, fst (snd (fork rt (c, tr))), tr')"
  using fork_sets_forked [of rt "(c, tr)"] by (simp add: fork_when_forked)

section \<open>Properties of final_env\<close>



lemma drop_deleted_keeps: "e k = Some (Str s) \<Longrightarrow> drop_deleted e k = Some (Str s)"
  by (simp add: drop_deleted_def)





subsection \<open>Claim C7\<close>




section \<open>Properties of send_signal_for_key\<close>

lemma environ_of_process_unreadable:
  assumes "\<not> is_macos rt" and "\<And>path. proc_read rt path = Inl OSError"
  shows "environ_of_process rt p = Inl OSError"
  using assms by (simp add: environ_of_process_def raw_environ_of_process_def)

lemma foreground_environ_unreadable:
  assumes "\<not> is_macos rt" and "\<And>path. proc_read rt path = Inl OSError"
  shows "foreground_environ rt c = []"
  using environ_of_process_unreadable [OF assms]
  by (simp add: foreground_environ_def Let_def split: option.splits)

lemma terminal_attr_unreadable:
  assumes "\<not> is_macos rt" and "\<And>path. proc_read rt path = Inl OSError"
  shows "terminal_attr rt c fd = tcgetattr rt fd"
  using foreground_environ_unreadable [OF assms]
  by (simp add: terminal_attr_def dict_get_def)

lemma sample_terminal_attr:
  "terminal_attr sample_runtime c fd =
     Inr \<lparr>lflag = 1, cc_VINTR = KeyBytes [3], cc_VSUSP = KeyBytes [26], cc_VQUIT = KeyBytes [28]\<rparr>"
proof -
  have "\<not> is_macos sample_runtime" and "\<And>path. proc_read sample_runtime path = Inl OSError"
    by (simp_all add: sample_runtime_def)
  then have "terminal_attr sample_runtime c fd = tcgetattr sample_runtime fd"
    by (rule terminal_attr_unreadable)
  then show ?thesis by (simp add: sample_runtime_def)
qed

subsection \<open>Claim C8\<close>

text \<open>
  C8 as stated pairs each control character with its own signal. The code tests
  \<^verbatim>\<open>VINTR\<close>, then \<^verbatim>\<open>VSUSP\<close>, then \<^verbatim>\<open>VQUIT\<close>, and the first that matches
  decides: on a terminal whose suspend character is the same as its interrupt
  character, the key code equal to the configured \<^verbatim>\<open>VSUSP\<close> delivers
  \<^verbatim>\<open>SIGINT\<close>, not \<^verbatim>\<open>SIGTSTP\<close>. And the method catches nothing: when
  \<^verbatim>\<open>os.killpg\<close> raises for a matching key, the call raises instead of returning
  true.
\<close>

theorem send_signal_for_key_shared_char_counterexample:
  "cc_VSUSP \<lparr>lflag = 1, cc_VINTR = KeyBytes [3], cc_VSUSP = KeyBytes [3], cc_VQUIT = KeyBytes [28]\<rparr>
     = KeyBytes [3]
   \<and> send_signal_for_key
        (sample_runtime\<lparr>tcgetattr := \<lambda>fd. Inr \<lparr>lflag = 1, cc_VINTR = KeyBytes [3],
           cc_VSUSP = KeyBytes [3], cc_VQUIT = KeyBytes [28]\<rparr>\<rparr>)
        sample_child (KeyBytes [3])
      = (Inr True, [(4242, SIGINT)])
   \<and> send_signal_for_key (sample_runtime\<lparr>killpg := \<lambda>pgrp s. Inl OSError\<rparr>)
        sample_child (KeyBytes [3])
      = (Inl OSError, [(4242, SIGINT)])"
proof (intro conjI)
  let ?t = "\<lparr>lflag = 1, cc_VINTR = KeyBytes [3], cc_VSUSP = KeyBytes [3], cc_VQUIT = KeyBytes [28]\<rparr>"
  let ?rt = "sample_runtime\<lparr>tcgetattr := \<lambda>fd. Inr ?t\<rparr>"
  show "cc_VSUSP ?t = KeyBytes [3]" by simp
  have fd: "child_fd sample_child = Some 10" by (simp add: sample_child_def)
  have "\<not> is_macos ?rt" and "\<And>path. proc_read ?rt path = Inl OSError"
    by (simp_all add: sample_runtime_def)
  then have "terminal_attr ?rt sample_child 10 = tcgetattr ?rt 10"
    by (rule terminal_attr_unreadable)
  then have t: "terminal_attr ?rt sample_child 10 = Inr ?t" by simp
  have rest: "ISIG ?rt = 1" "tcgetpgrp ?rt 10 = Inr 4242" "killpg ?rt 4242 SIGINT = Inr ()"
    by (simp_all add: sample_runtime_def)
  from fd t rest show "send_signal_for_key ?rt sample_child (KeyBytes [3]) = (Inr True, [(4242, SIGINT)])"
    by (simp add: send_signal_for_key_def signal_for_key_def)
  let ?rk = "sample_runtime\<lparr>killpg := \<lambda>pgrp s. Inl OSError\<rparr>"
  let ?s = "\<lparr>lflag = 1, cc_VINTR = KeyBytes [3], cc_VSUSP = KeyBytes [26], cc_VQUIT = KeyBytes [28]\<rparr>"
  have "\<not> is_macos ?rk" and "\<And>path. proc_read ?rk path = Inl OSError"
    by (simp_all add: sample_runtime_def)
  then have "terminal_attr ?rk sample_child 10 = tcgetattr ?rk 10"
    by (rule terminal_attr_unreadable)
  then have t': "terminal_attr ?rk sample_child 10 = Inr ?s" by (simp add: sample_runtime_def)
  have rest': "ISIG ?rk = 1" "tcgetpgrp ?rk 10 = Inr 4242" "killpg ?rk 4242 SIGINT = Inl OSError"
    by (simp_all add: sample_runtime_def)
  from fd t' rest' show "send_signal_for_key ?rk sample_child (KeyBytes [3]) = (Inl OSError, [(4242, SIGINT)])"
    by (simp add: send_signal_for_key_def signal_for_key_def)
qed

text \<open>
  C8, amended. A Child without a descriptor handles no key. For a Child with a
  descriptor whose terminal attributes have been read: when the \<^verbatim>\<open>ISIG\<close> bit is
  off the call returns false and calls \<^verbatim>\<open>killpg\<close> never; when it is on and the
  key code equals none of \<^verbatim>\<open>VINTR\<close>, \<^verbatim>\<open>VSUSP\<close>, \<^verbatim>\<open>VQUIT\<close> the call returns
  false and calls \<^verbatim>\<open>killpg\<close> never; when it is on, the foreground process group
  is found and the delivery succeeds, the first of \<^verbatim>\<open>VINTR\<close>, \<^verbatim>\<open>VSUSP\<close>,
  \<^verbatim>\<open>VQUIT\<close> that the key code equals selects \<^verbatim>\<open>SIGINT\<close>, \<^verbatim>\<open>SIGTSTP\<close> or
  \<^verbatim>\<open>SIGQUIT\<close>, exactly one \<^verbatim>\<open>killpg\<close> of that signal goes to the whole
  foreground process group, and the call returns true.
\<close>

theorem send_signal_for_key_first_match:
  "(child_fd c = None \<longrightarrow> send_signal_for_key rt c key_num = (Inr False, []))
   \<and> (child_fd c = Some fd \<and> terminal_attr rt c fd = Inr t \<longrightarrow>
        (lflag t AND ISIG rt = 0 \<longrightarrow> send_signal_for_key rt c key_num = (Inr False, []))
      \<and> (lflag t AND ISIG rt \<noteq> 0
            \<and> key_num \<noteq> cc_VINTR t \<and> key_num \<noteq> cc_VSUSP t \<and> key_num \<noteq> cc_VQUIT t \<longrightarrow>
          send_signal_for_key rt c key_num = (Inr False, []))
      \<and> (lflag t AND ISIG rt \<noteq> 0 \<and> tcgetpgrp rt fd = Inr pgrp
            \<and> (\<forall>s. killpg rt pgrp s = Inr ()) \<longrightarrow>
            (key_num = cc_VINTR t \<longrightarrow>
               send_signal_for_key rt c key_num = (Inr True, [(pgrp, SIGINT)]))
          \<and> (key_num \<noteq> cc_VINTR t \<and> key_num = cc_VSUSP t \<longrightarrow>
               send_signal_for_key rt c key_num = (Inr True, [(pgrp, SIGTSTP)]))
          \<and> (key_num \<noteq> cc_VINTR t \<and> key_num \<noteq> cc_VSUSP t \<and> key_num = cc_VQUIT t \<longrightarrow>
               send_signal_for_key rt c key_num = (Inr True, [(pgrp, SIGQUIT)]))))"
proof (intro conjI impI)
  assume "child_fd c = None"
  then show "send_signal_for_key rt c key_num = (Inr False, [])"
    by (simp add: send_signal_for_key_def)
next
  assume "child_fd c = Some fd \<and> terminal_attr rt c fd = Inr t" and "lflag t AND ISIG rt = 0"
  then show "send_signal_for_key rt c key_num = (Inr False, [])"
    by (simp add: send_signal_for_key_def)
next
  assume "child_fd c = Some fd \<and> terminal_attr rt c fd = Inr t"
    and "lflag t AND ISIG rt \<noteq> 0
         \<and> key_num \<noteq> cc_VINTR t \<and> key_num \<noteq> cc_VSUSP t \<and> key_num \<noteq> cc_VQUIT t"
  then show "send_signal_for_key rt c key_num = (Inr False, [])"
    by (auto simp: send_signal_for_key_def signal_for_key_def)
next
  assume "child_fd c = Some fd \<and> terminal_attr rt c fd = Inr t"
    and "lflag t AND ISIG rt \<noteq> 0 \<and> tcgetpgrp rt fd = Inr pgrp \<and> (\<forall>s. killpg rt pgrp s = Inr ())"
    and "key_num = cc_VINTR t"
  then show "send_signal_for_key rt c key_num = (Inr True, [(pgrp, SIGINT)])"
    by (auto simp: send_signal_for_key_def signal_for_key_def)
next
  assume "child_fd c = Some fd \<and> terminal_attr rt c fd = Inr t"
    and "lflag t AND ISIG rt \<noteq> 0 \<and> tcgetpgrp rt fd = Inr pgrp \<and> (\<forall>s. killpg rt pgrp s = Inr ())"
    and "key_num \<noteq> cc_VINTR t \<and> key_num = cc_VSUSP t"
  then show "send_signal_for_key rt c key_num = (Inr True, [(pgrp, SIGTSTP)])"
    by (auto simp: send_signal_for_key_def signal_for_key_def)
next
  assume "child_fd c = Some fd \<and> terminal_attr rt c fd = Inr t"
    and "lflag t AND ISIG rt \<noteq> 0 \<and> tcgetpgrp rt fd = Inr pgrp \<and> (\<forall>s. killpg rt pgrp s = Inr ())"
    and "key_num \<noteq> cc_VINTR t \<and> key_num \<noteq> cc_VSUSP t \<and> key_num = cc_VQUIT t"
  then show "send_signal_for_key rt c key_num = (Inr True, [(pgrp, SIGQUIT)])"
    by (auto simp: send_signal_for_key_def signal_for_key_def)
qed

text \<open>
  On the sample system: Ctrl-C, Ctrl-Z and Ctrl-Backslash each deliver their
  signal once to the group 4242; the letter A delivers nothing; with the
  \<^verbatim>\<open>ISIG\<close> bit elsewhere than in the terminal's flags, or without a descriptor,
  Ctrl-C delivers nothing.
\<close>

theorem send_signal_for_key_first_match_witness:
  "send_signal_for_key sample_runtime sample_child (KeyBytes [3]) = (Inr True, [(4242, SIGINT)])
   \<and> send_signal_for_key sample_runtime sample_child (KeyBytes [26]) = (Inr True, [(4242, SIGTSTP)])
   \<and> send_signal_for_key sample_runtime sample_child (KeyBytes [28]) = (Inr True, [(4242, SIGQUIT)])
   \<and> send_signal_for_key sample_runtime sample_child (KeyBytes [65]) = (Inr False, [])
   \<and> send_signal_for_key (sample_runtime\<lparr>ISIG := 2\<rparr>) sample_child (KeyBytes [3]) = (Inr False, [])
   \<and> send_signal_for_key sample_runtime (sample_child\<lparr>child_fd := None\<rparr>) (KeyBytes [3])
       = (Inr False, [])"
proof -
  let ?t = "\<lparr>lflag = 1, cc_VINTR = KeyBytes [3], cc_VSUSP = KeyBytes [26], cc_VQUIT = KeyBytes [28]\<rparr>"
  let ?off = "sample_runtime\<lparr>ISIG := 2\<rparr>"
  have fd: "child_fd sample_child = Some 10" by (simp add: sample_child_def)
  have t: "terminal_attr sample_runtime sample_child 10 = Inr ?t" by (rule sample_terminal_attr)
  have on: "lflag ?t AND ISIG sample_runtime \<noteq> 0" by (simp add: sample_runtime_def)
  have pg: "tcgetpgrp sample_runtime 10 = Inr 4242" by (simp add: sample_runtime_def)
  have kill: "\<forall>s. killpg sample_runtime 4242 s = Inr ()" by (simp add: sample_runtime_def)
  have t_off: "terminal_attr ?off sample_child 10 = Inr ?t"
  proof -
    have "\<not> is_macos ?off" and "\<And>path. proc_read ?off path = Inl OSError"
      by (simp_all add: sample_runtime_def)
    then have "terminal_attr ?off sample_child 10 = tcgetattr ?off 10"
      by (rule terminal_attr_unreadable)
    then show ?thesis by (simp add: sample_runtime_def)
  qed
  have off: "lflag ?t AND ISIG ?off = 0" by simp
  have none: "child_fd (sample_child\<lparr>child_fd := None\<rparr>) = None" by simp
  from send_signal_for_key_first_match [of sample_child sample_runtime "KeyBytes [3]" 10 ?t 4242]
    fd t on pg kill
  have k1: "send_signal_for_key sample_runtime sample_child (KeyBytes [3]) = (Inr True, [(4242, SIGINT)])"
    by simp
  from send_signal_for_key_first_match [of sample_child sample_runtime "KeyBytes [26]" 10 ?t 4242]
    fd t on pg kill
  have k2: "send_signal_for_key sample_runtime sample_child (KeyBytes [26]) = (Inr True, [(4242, SIGTSTP)])"
    by simp
  from send_signal_for_key_first_match [of sample_child sample_runtime "KeyBytes [28]" 10 ?t 4242]
    fd t on pg kill
  have k3: "send_signal_for_key sample_runtime sample_child (KeyBytes [28]) = (Inr True, [(4242, SIGQUIT)])"
    by simp
  from send_signal_for_key_first_match [of sample_child sample_runtime "KeyBytes [65]" 10 ?t 4242]
    fd t on
  have k4: "send_signal_for_key sample_runtime sample_child (KeyBytes [65]) = (Inr False, [])"
    by simp
  from send_signal_for_key_first_match [of sample_child ?off "KeyBytes [3]" 10 ?t 4242]
    fd t_off off
  have k5: "send_signal_for_key ?off sample_child (KeyBytes [3]) = (Inr False, [])"
    by simp
  from send_signal_for_key_first_match
    [of "sample_child\<lparr>child_fd := None\<rparr>" sample_runtime "KeyBytes [3]" 10 ?t 4242] none
  have k6: "send_signal_for_key sample_runtime (sample_child\<lparr>child_fd := None\<rparr>) (KeyBytes [3])
      = (Inr False, [])"
    by simp
  from k1 k2 k3 k4 k5 k6 show ?thesis by simp
qed

section \<open>Properties of the introspection accessors\<close>

text \<open>
  The accessors have no raising branch. When the Child has no pid, or the
  underlying lookup raises, \<open>cmdline\<close> returns the Child's \<open>argv\<close>, \<open>environ\<close>
  the empty mapping and \<open>current_cwd\<close> \<open>None\<close>; \<open>foreground_processes\<close> returns
  the empty list when the foreground group cannot be determined or has no member.
  A member of the group whose own lookups fail is still listed, with the
  fallbacks in its fields.
\<close>

lemma cmdline_fallback:
  assumes "pid c = None \<or> (\<exists>p e. pid c = Some p \<and> cmdline_of_pid rt p = Inl e)"
  shows "cmdline rt c = argv c"
  using assms by (auto simp: cmdline_def child_cmdline_of_pid_def)

lemma environ_fallback:
  assumes "pid c = None \<or> (\<exists>p e. pid c = Some p \<and> raw_environ_of_process rt p = Inl e)"
  shows "environ rt c = []"
  using assms by (auto simp: environ_def environ_of_process_def)

lemma current_cwd_fallback:
  assumes "pid c = None \<or> (\<exists>p e. pid c = Some p \<and> cwd_of_process rt p = Inl e)"
  shows "current_cwd rt c = None"
  using assms by (auto simp: current_cwd_def)

lemma foreground_processes_fallback:
  assumes "child_fd c = None
           \<or> (\<exists>fd e. child_fd c = Some fd \<and> tcgetpgrp rt fd = Inl e)
           \<or> (\<exists>fd pgrp. child_fd c = Some fd \<and> tcgetpgrp rt fd = Inr pgrp
                 \<and> (pgrp < 0 \<or> processes_in_group rt pgrp = []))"
  shows "foreground_processes rt c = []"
  using assms by (auto simp: foreground_processes_def)

lemma processes_in_group_scan_fails:
  "cached_map rt = None \<Longrightarrow> process_group_map rt = Inl e \<Longrightarrow> processes_in_group rt grp = []"
  by (simp add: processes_in_group_def)

lemma cwd_of_process_linux:
  "\<not> is_macos rt \<Longrightarrow> \<not> is_freebsd rt \<Longrightarrow>
     cwd_of_process rt p = realpath rt (''/proc/'' @ str_of_int p @ ''/cwd'')"
  by (simp add: cwd_of_process_def)

lemma current_cwd_linux:
  "\<not> is_macos rt \<Longrightarrow> \<not> is_freebsd rt \<Longrightarrow> pid c = Some p \<Longrightarrow>
     realpath rt (''/proc/'' @ str_of_int p @ ''/cwd'') = Inr d \<Longrightarrow>
     current_cwd rt c = Some d"
  by (simp add: current_cwd_def cwd_of_process_linux)

lemma str_of_int_4242: "str_of_int 4242 = ''4242''"
  by code_simp

lemma foreground_processes_members_gone:
  "map desc_pid (foreground_processes sample_runtime sample_child) = [101, 150, 99]"
  by (simp add: foreground_processes_def sample_runtime_def sample_child_def
      processes_in_group_def process_desc_of_def)

subsection \<open>Claim C9\<close>

text \<open>
  C9 says that on every failure of the introspection, a process that is gone
  included, \<open>current_cwd\<close> returns \<open>None\<close>. On Linux the lookup of the working
  directory does not fail for a process that is gone: \<^verbatim>\<open>realpath\<close> returns the
  path \<^verbatim>\<open>/proc/<pid>/cwd\<close> unresolved, so the \<^verbatim>\<open>suppress(Exception)\<close> around it
  never takes effect and the accessor returns that path. The macOS and FreeBSD
  lookups raise in the same situation. On the sample system, where the process
  4242 of the Child has exited and its \<^verbatim>\<open>/proc\<close> entries cannot be read,
  \<open>cmdline\<close> and \<open>environ\<close> return their fallbacks and \<open>current_cwd\<close> returns
  \<^verbatim>\<open>/proc/4242/cwd\<close>.
\<close>

theorem current_cwd_linux_process_gone:
  "proc_read sample_runtime ''/proc/4242/cmdline'' = Inl OSError
   \<and> cmdline sample_runtime sample_child = argv sample_child
   \<and> environ sample_runtime sample_child = []
   \<and> current_cwd sample_runtime sample_child = Some ''/proc/4242/cwd''"
proof (intro conjI)
  show "proc_read sample_runtime ''/proc/4242/cmdline'' = Inl OSError"
    by (simp add: sample_runtime_def)
  have p: "pid sample_child = Some 4242" by (simp add: sample_child_def)
  have "cmdline_of_pid sample_runtime 4242 = Inl OSError"
    by (simp add: cmdline_of_pid_def sample_runtime_def)
  with p show "cmdline sample_runtime sample_child = argv sample_child"
    by (intro cmdline_fallback) simp
  have "raw_environ_of_process sample_runtime 4242 = Inl OSError"
    by (simp add: raw_environ_of_process_def sample_runtime_def)
  with p show "environ sample_runtime sample_child = []"
    by (intro environ_fallback) simp
  have linux: "\<not> is_macos sample_runtime" "\<not> is_freebsd sample_runtime"
    by (simp_all add: sample_runtime_def)
  have rp: "realpath sample_runtime (''/proc/'' @ str_of_int 4242 @ ''/cwd'') = Inr ''/proc/4242/cwd''"
    by (simp add: str_of_int_4242 sample_runtime_def)
  from current_cwd_linux [OF linux p rp]
  show "current_cwd sample_runtime sample_child = Some ''/proc/4242/cwd''" .
qed

end
